theory Spec2Isabelle
  imports Main "HOL-Library.Monad_Syntax"
begin

section \<open>Values read from config.json\<close>

text \<open>
  \<^verbatim>\<open>JSON.parse\<close> yields untyped values and the script never checks their types, only
  their truthiness, so the configuration is modelled with the values JavaScript has.
  Numbers are the integers (a TTL is a number of seconds); strings are ASCII strings; an
  object is the list of its own properties. \<open>JUndefined\<close> is what reading an absent
  property gives.
\<close>

datatype jsval =
    JUndefined
  | JNull
  | JBool bool
  | JNum int
  | JStr string
  | JArr "jsval list"
  | JObj "(string \<times> jsval) list"

text \<open>The truthiness test behind \<^verbatim>\<open>!v\<close>, \<^verbatim>\<open>a || b\<close>, \<^verbatim>\<open>a && b\<close> and \<^verbatim>\<open>if (v)\<close>.\<close>

fun truthy :: "jsval \<Rightarrow> bool" where
  "truthy JUndefined = False"
| "truthy JNull = False"
| "truthy (JBool b) = b"
| "truthy (JNum n) = (n \<noteq> 0)"
| "truthy (JStr s) = (s \<noteq> [])"
| "truthy (JArr xs) = True"
| "truthy (JObj kvs) = True"

text \<open>\<^verbatim>\<open>a || b\<close>: the left operand when it is truthy, the right one otherwise.\<close>

definition js_or :: "jsval \<Rightarrow> jsval \<Rightarrow> jsval" where
  "js_or a b = (if truthy a then a else b)"

text \<open>
  \<^verbatim>\<open>v.key\<close> for one of the keys the script reads (telegram, defaults, domains, botToken,
  chatId, apiToken, ttl, proxied, name, zoneId). Reading a property of \<^verbatim>\<open>null\<close> or
  \<^verbatim>\<open>undefined\<close> throws a TypeError, which is \<open>None\<close> here; a number, boolean, string or
  array has none of these keys.
\<close>

fun get_prop :: "jsval \<Rightarrow> string \<Rightarrow> jsval option" where
  "get_prop JUndefined k = None"
| "get_prop JNull k = None"
| "get_prop (JObj kvs) k = Some (case map_of kvs k of None \<Rightarrow> JUndefined | Some v \<Rightarrow> v)"
| "get_prop v k = Some JUndefined"

section \<open>Global state of the script\<close>

text \<open>
  One entry of \<^verbatim>\<open>DOMAINS\<close>, as \<^verbatim>\<open>loadConfig\<close> builds it (lines 50-56). The fields keep the
  untyped values of the file: nothing converts them.
\<close>

record domain =
  name :: jsval
  zoneId :: jsval
  apiToken :: jsval
  ttl :: jsval
  proxied :: jsval

text \<open>
  The module-level variables (lines 14-16, 112, 298-299). \<open>timer\<close> is the handle of the
  last \<^verbatim>\<open>setTimeout\<close> of \<^verbatim>\<open>scheduleNextCheck\<close>, \<open>None\<close> for \<^verbatim>\<open>null\<close>.
\<close>

record globals =
  TELEGRAM_BOT_TOKEN :: jsval
  TELEGRAM_CHAT_ID :: jsval
  DOMAINS :: "domain list"
  isRunning :: bool
  timer :: "nat option"
  isShuttingDown :: bool

definition initial_globals :: globals where
  "initial_globals =
     \<lparr>TELEGRAM_BOT_TOKEN = JUndefined, TELEGRAM_CHAT_ID = JUndefined, DOMAINS = [],
      isRunning = False, timer = None, isShuttingDown = False\<rparr>"

section \<open>The outside world and what the script does to it\<close>

text \<open>
  What \<^verbatim>\<open>await fetch(...)\<close> followed by \<^verbatim>\<open>response.json()\<close> can give: the promise rejects
  (no network, DNS failure, abort by the timeout), or a response arrives with its
  \<^verbatim>\<open>ok\<close> flag, its status and a body; the body is \<open>None\<close> when \<^verbatim>\<open>response.json()\<close> rejects.
\<close>

datatype 'b fetch_result =
    Rejected
  | Response bool nat "'b option"

text \<open>
  The bodies follow the schemas of the three services. The echo service answers
  \<^verbatim>\<open>{"ip": ...}\<close> (\<open>None\<close>: the field is absent). Cloudflare answers with a \<^verbatim>\<open>success\<close> flag and
  a \<^verbatim>\<open>result\<close> that is a list of records or \<^verbatim>\<open>null\<close> (\<open>None\<close>). Telegram answers with \<^verbatim>\<open>ok\<close>.
\<close>

record ip_body =
  ip :: "string option"

record dns_record =
  content :: string
  rid :: string

record dns_body =
  success :: bool
  result :: "dns_record list option"

record telegram_body =
  tg_ok :: bool

text \<open>
  The answers of one cycle, fixed in advance: the echo service's answer, and for the
  domain at each position of \<^verbatim>\<open>DOMAINS\<close> and each attempt number, the answers to the GET, to
  the PATCH and to the Telegram POST, and the value of \<^verbatim>\<open>Math.random()\<close> scaled to 0..299.
\<close>

record world =
  ipify :: "ip_body fetch_result"
  dns_get :: "nat \<Rightarrow> nat \<Rightarrow> dns_body fetch_result"
  dns_patch :: "nat \<Rightarrow> nat \<Rightarrow> dns_body fetch_result"
  telegram :: "nat \<Rightarrow> nat \<Rightarrow> telegram_body fetch_result"
  jitter :: "nat \<Rightarrow> nat \<Rightarrow> nat"

text \<open>The errors the script throws or receives.\<close>

datatype js_error =
    FetchRejected
  | HttpError nat
  | JsonError
  | TypeError
  | CloudflareApiError
  | TelegramNotOk

text \<open>Which retried operation a log line of the retry helper is about (its \<^verbatim>\<open>context\<close>).\<close>

datatype retry_context = FetchingRecord nat | UpdatingRecord nat

text \<open>
  The log lines, one constructor per \<^verbatim>\<open>console\<close> call of the cycle, named after what the
  line says; the domain is given by its position in \<^verbatim>\<open>DOMAINS\<close>.
\<close>

datatype log_line =
    RetryExhausted retry_context nat js_error
  | RetryAgain retry_context nat nat js_error nat
  | PublicIpError js_error
  | NoARecordFound nat
  | FetchRecordError nat js_error
  | TelegramSkipped
  | TelegramSent
  | TelegramGaveUp nat js_error
  | TelegramAgain nat nat js_error nat
  | RecordUpdated nat string
  | UpdateRecordError nat js_error
  | CycleAlreadyRunning
  | NoPublicIp
  | RecordMatches nat string
  | RecordDiffers nat string string

datatype level = Info | Warn | Error

text \<open>
  What a run does, in order: the outbound requests, the waits, the log lines, and a
  marker for each call of the function handed to the retry helper.
\<close>

datatype event =
    GetPublicIp
  | GetRecord nat
  | PatchRecord nat string string jsval jsval
  | PostTelegram nat
  | Sleep nat
  | Log level log_line
  | Attempt retry_context nat

section \<open>retryCloudflareAPI (lines 115-132)\<close>

text \<open>What an \<^verbatim>\<open>async\<close> function ends with: a value, \<^verbatim>\<open>undefined\<close>, or a thrown error.\<close>

datatype 'a outcome = Value 'a | Undefined | Raise js_error

text \<open>\<^verbatim>\<open>Math.min(initialDelayMs * Math.pow(2, attempt - 1), 10000)\<close>, line 121.\<close>

definition backoff_delay :: "nat \<Rightarrow> nat \<Rightarrow> nat" where
  "backoff_delay initialDelayMs attempt = min (initialDelayMs * 2 ^ (attempt - 1)) 10000"

text \<open>
  The \<^verbatim>\<open>for\<close> loop of the helper from \<open>attempt\<close> on. \<open>fn attempt\<close> is what the call of
  \<open>fn\<close> made at that attempt returns or throws, with the events of the call. When the
  loop ends without a \<^verbatim>\<open>return\<close> or \<^verbatim>\<open>throw\<close> (\<open>retries\<close> is 0), the function returns
  \<^verbatim>\<open>undefined\<close>.
\<close>

function retry_loop ::
  "(nat \<Rightarrow> (js_error + 'a) \<times> event list) \<Rightarrow> retry_context \<Rightarrow> nat \<Rightarrow> nat \<Rightarrow> nat \<Rightarrow> 'a outcome \<times> event list"
where
  "retry_loop fn ctx retries initialDelayMs attempt =
     (if attempt \<le> retries then
        (case fn attempt of
           (Inr v, evs) \<Rightarrow> (Value v, Attempt ctx attempt # evs)
         | (Inl error, evs) \<Rightarrow>
             (let isLast = (attempt = retries);
                  delay = backoff_delay initialDelayMs attempt
              in if isLast then
                   (Raise error,
                    Attempt ctx attempt # evs @ [Log Error (RetryExhausted ctx retries error)])
                 else
                   (case retry_loop fn ctx retries initialDelayMs (attempt + 1) of
                      (r, rest) \<Rightarrow>
                        (r, Attempt ctx attempt # evs
                            @ [Log Warn (RetryAgain ctx attempt retries error delay), Sleep delay]
                            @ rest))))
      else (Undefined, []))"
  by pat_completeness auto
termination
  by (relation "measure (\<lambda>(fn, ctx, retries, initialDelayMs, attempt). Suc retries - attempt)") auto

declare retry_loop.simps [simp del]

text \<open>The helper with its default options \<^verbatim>\<open>{ retries = 3, initialDelayMs = 1000 }\<close>,
  which is how both callers use it.\<close>

definition retryCloudflareAPI ::
  "(nat \<Rightarrow> (js_error + 'a) \<times> event list) \<Rightarrow> retry_context \<Rightarrow> 'a outcome \<times> event list"
where
  "retryCloudflareAPI fn ctx = retry_loop fn ctx 3 1000 1"

section \<open>getPublicIp (lines 134-144)\<close>

text \<open>
  One request; every failure is caught, logged and turned into \<^verbatim>\<open>null\<close>. The result is
  \<^verbatim>\<open>data.ip\<close>: \<open>None\<close> stands for \<^verbatim>\<open>null\<close> and for \<^verbatim>\<open>undefined\<close>, which the caller does not
  tell apart.
\<close>

definition getPublicIp :: "world \<Rightarrow> string option \<times> event list" where
  "getPublicIp w =
     (case ipify w of
        Rejected \<Rightarrow> (None, [GetPublicIp, Log Error (PublicIpError FetchRejected)])
      | Response ok status body \<Rightarrow>
          if \<not> ok then (None, [GetPublicIp, Log Error (PublicIpError (HttpError status))])
          else (case body of
                  None \<Rightarrow> (None, [GetPublicIp, Log Error (PublicIpError JsonError)])
                | Some data \<Rightarrow> (ip data, [GetPublicIp])))"

section \<open>getARecord (lines 146-168)\<close>

text \<open>
  The function handed to the retry helper (lines 149-163), at one attempt, for the domain
  at position \<open>i\<close>. \<^verbatim>\<open>data.success && data.result.length > 0\<close> reads \<^verbatim>\<open>data.result\<close>
  only when \<^verbatim>\<open>data.success\<close> is truthy, and throws a TypeError when it is \<^verbatim>\<open>null\<close> then.
\<close>

definition getARecord_attempt ::
  "world \<Rightarrow> nat \<Rightarrow> nat \<Rightarrow> (js_error + dns_record option) \<times> event list"
where
  "getARecord_attempt w i attempt =
     (case dns_get w i attempt of
        Rejected \<Rightarrow> (Inl FetchRejected, [GetRecord i])
      | Response ok status body \<Rightarrow>
          if \<not> ok then (Inl (HttpError status), [GetRecord i])
          else (case body of
                  None \<Rightarrow> (Inl JsonError, [GetRecord i])
                | Some data \<Rightarrow>
                    if success data then
                      (case result data of
                         None \<Rightarrow> (Inl TypeError, [GetRecord i])
                       | Some [] \<Rightarrow> (Inr None, [GetRecord i, Log Error (NoARecordFound i)])
                       | Some (r # rs) \<Rightarrow> (Inr (Some r), [GetRecord i]))
                    else (Inr None, [GetRecord i, Log Error (NoARecordFound i)])))"

text \<open>
  The record snapshot, or \<open>None\<close> for what the caller sees as falsy: the \<^verbatim>\<open>null\<close> of the
  function above, the \<^verbatim>\<open>null\<close> of the \<^verbatim>\<open>catch\<close> (line 166).
\<close>

definition getARecord :: "world \<Rightarrow> nat \<Rightarrow> dns_record option \<times> event list" where
  "getARecord w i =
     (case retryCloudflareAPI (getARecord_attempt w i) (FetchingRecord i) of
        (Value r, evs) \<Rightarrow> (r, evs)
      | (Undefined, evs) \<Rightarrow> (None, evs)
      | (Raise error, evs) \<Rightarrow> (None, evs @ [Log Error (FetchRecordError i error)]))"

section \<open>sendTelegramMessage (lines 170-220)\<close>

text \<open>One attempt (lines 185-205): \<open>None\<close> when the message was delivered, the error thrown
  otherwise. A request aborted by the 10 s timer is a rejected fetch.\<close>

definition telegram_attempt :: "world \<Rightarrow> nat \<Rightarrow> nat \<Rightarrow> js_error option" where
  "telegram_attempt w i attempt =
     (case telegram w i attempt of
        Rejected \<Rightarrow> Some FetchRejected
      | Response ok status body \<Rightarrow>
          if \<not> ok then Some (HttpError status)
          else (case body of
                  None \<Rightarrow> Some JsonError
                | Some data \<Rightarrow> if \<not> tg_ok data then Some TelegramNotOk else None))"

function telegram_loop :: "world \<Rightarrow> nat \<Rightarrow> nat \<Rightarrow> nat \<Rightarrow> nat \<Rightarrow> bool \<times> event list" where
  "telegram_loop w i retries initialDelayMs attempt =
     (if attempt \<le> retries then
        (case telegram_attempt w i attempt of
           None \<Rightarrow> (True, [PostTelegram i, Log Info TelegramSent])
         | Some error \<Rightarrow>
             (let isLast = (attempt = retries);
                  delay = min (initialDelayMs * 2 ^ (attempt - 1)) 15000 + jitter w i attempt mod 300
              in if isLast then
                   (False, [PostTelegram i, Log Error (TelegramGaveUp retries error)])
                 else
                   (case telegram_loop w i retries initialDelayMs (attempt + 1) of
                      (r, rest) \<Rightarrow>
                        (r, [PostTelegram i, Log Warn (TelegramAgain attempt retries error delay),
                             Sleep delay] @ rest))))
      else (False, []))"
  by pat_completeness auto
termination
  by (relation "measure (\<lambda>(w, i, retries, initialDelayMs, attempt). Suc retries - attempt)") auto

declare telegram_loop.simps [simp del]

text \<open>
  The notifier, called with its default options (5 attempts, 500 ms) for the message
  about the domain at position \<open>i\<close>. The credentials are tested and the warning printed
  inside the function, at every call (lines 171-174).
\<close>

definition sendTelegramMessage :: "globals \<Rightarrow> world \<Rightarrow> nat \<Rightarrow> bool \<times> event list" where
  "sendTelegramMessage st w i =
     (if \<not> truthy (TELEGRAM_BOT_TOKEN st) \<or> \<not> truthy (TELEGRAM_CHAT_ID st) then
        (False, [Log Warn TelegramSkipped])
      else telegram_loop w i 5 500 1)"

section \<open>updateARecord (lines 223-264)\<close>

definition updateARecord_attempt ::
  "world \<Rightarrow> nat \<Rightarrow> domain \<Rightarrow> string \<Rightarrow> string \<Rightarrow> nat \<Rightarrow> (js_error + bool) \<times> event list"
where
  "updateARecord_attempt w i domainConfig recordId newIp attempt =
     (let request = PatchRecord i recordId newIp (ttl domainConfig) (proxied domainConfig) in
      case dns_patch w i attempt of
        Rejected \<Rightarrow> (Inl FetchRejected, [request])
      | Response ok status body \<Rightarrow>
          if \<not> ok then (Inl (HttpError status), [request])
          else (case body of
                  None \<Rightarrow> (Inl JsonError, [request])
                | Some data \<Rightarrow>
                    if success data then (Inr True, [request])
                    else (Inl CloudflareApiError, [request])))"

definition updateARecord ::
  "globals \<Rightarrow> world \<Rightarrow> nat \<Rightarrow> domain \<Rightarrow> string \<Rightarrow> string \<Rightarrow> string \<Rightarrow> event list"
where
  "updateARecord st w i domainConfig recordId newIp oldIp =
     (case retryCloudflareAPI (updateARecord_attempt w i domainConfig recordId newIp)
             (UpdatingRecord i) of
        (Value updated, evs) \<Rightarrow>
          if updated then
            evs @ [Log Info (RecordUpdated i newIp)] @ snd (sendTelegramMessage st w i)
          else evs
      | (Undefined, evs) \<Rightarrow> evs
      | (Raise error, evs) \<Rightarrow> evs @ [Log Error (UpdateRecordError i error)])"

section \<open>checkAndUpdate (lines 266-295)\<close>

text \<open>The body of the \<^verbatim>\<open>for\<close> loop (lines 282-290) for the domain at position \<open>i\<close>.\<close>

definition reconcile_domain :: "globals \<Rightarrow> world \<Rightarrow> string \<Rightarrow> nat \<Rightarrow> domain \<Rightarrow> event list" where
  "reconcile_domain st w publicIp i domainConfig =
     (case getARecord w i of
        (None, evs) \<Rightarrow> evs
      | (Some record, evs) \<Rightarrow>
          if content record = publicIp then evs @ [Log Info (RecordMatches i publicIp)]
          else evs @ [Log Info (RecordDiffers i (content record) publicIp)]
                 @ updateARecord st w i domainConfig (rid record) publicIp (content record))"

text \<open>The loop over \<^verbatim>\<open>DOMAINS\<close>, from position \<open>i\<close> on.\<close>

fun for_domains :: "globals \<Rightarrow> world \<Rightarrow> string \<Rightarrow> nat \<Rightarrow> domain list \<Rightarrow> event list" where
  "for_domains st w publicIp i [] = []"
| "for_domains st w publicIp i (domainConfig # rest) =
     reconcile_domain st w publicIp i domainConfig @ for_domains st w publicIp (Suc i) rest"

text \<open>
  The \<^verbatim>\<open>try\<close> block (lines 275-291): the error that escapes it, if any, and its events.
  \<^verbatim>\<open>!publicIp\<close> holds for \<^verbatim>\<open>null\<close>, \<^verbatim>\<open>undefined\<close> and the empty string. Every callee catches
  its own errors, so nothing escapes this block.
\<close>

definition try_block :: "world \<Rightarrow> globals \<Rightarrow> js_error option \<times> event list" where
  "try_block w st =
     (case getPublicIp w of
        (None, evs) \<Rightarrow> (None, evs @ [Log Error NoPublicIp])
      | (Some publicIp, evs) \<Rightarrow>
          if publicIp = [] then (None, evs @ [Log Error NoPublicIp])
          else (None, evs @ for_domains st w publicIp 0 (DOMAINS st)))"

text \<open>
  Lines 268-273 run without suspension (the first \<^verbatim>\<open>await\<close> is on line 275): the guard
  and the assignment are one step. \<open>None\<close>: the invocation is turned away.
\<close>

definition checkAndUpdate_enter :: "globals \<Rightarrow> globals option" where
  "checkAndUpdate_enter st = (if isRunning st then None else Some (st\<lparr>isRunning := True\<rparr>))"

text \<open>The \<^verbatim>\<open>finally\<close> block (line 293).\<close>

definition checkAndUpdate_leave :: "globals \<Rightarrow> globals" where
  "checkAndUpdate_leave st = st\<lparr>isRunning := False\<rparr>"

text \<open>
  The function around any \<^verbatim>\<open>try\<close> block: the globals afterwards, the error the call
  rejects with (if any), and the events. \<^verbatim>\<open>finally\<close> runs whether the block returns or
  throws.
\<close>

definition checkAndUpdate_with ::
  "(globals \<Rightarrow> js_error option \<times> event list) \<Rightarrow> globals \<Rightarrow> globals \<times> js_error option \<times> event list"
where
  "checkAndUpdate_with block st =
     (case checkAndUpdate_enter st of
        None \<Rightarrow> (st, None, [Log Warn CycleAlreadyRunning])
      | Some st1 \<Rightarrow>
          (case block st1 of (thrown, evs) \<Rightarrow> (checkAndUpdate_leave st1, thrown, evs)))"

definition checkAndUpdate :: "world \<Rightarrow> globals \<Rightarrow> globals \<times> js_error option \<times> event list" where
  "checkAndUpdate w = checkAndUpdate_with (try_block w)"

text \<open>
  Invocations overlap only at their suspension points. Between two of them the event
  loop runs one of these steps: some caller invokes \<^verbatim>\<open>checkAndUpdate\<close> (\<open>Invoke\<close>), or the
  \<^verbatim>\<open>try\<close> block of an invocation that got past the guard ends and its \<^verbatim>\<open>finally\<close> runs
  (\<open>Settle\<close>). The state is the globals with the number of invocations that are inside
  the \<^verbatim>\<open>try\<close> block and the number of invocations turned away.
\<close>

datatype loop_event = Invoke | Settle

fun interleave_step :: "globals \<times> nat \<times> nat \<Rightarrow> loop_event \<Rightarrow> globals \<times> nat \<times> nat" where
  "interleave_step (st, inside, dropped) Invoke =
     (case checkAndUpdate_enter st of
        None \<Rightarrow> (st, inside, Suc dropped)
      | Some st1 \<Rightarrow> (st1, Suc inside, dropped))"
| "interleave_step (st, inside, dropped) Settle =
     (if inside = 0 then (st, inside, dropped)
      else (checkAndUpdate_leave st, inside - 1, dropped))"

definition interleave :: "globals \<Rightarrow> loop_event list \<Rightarrow> globals \<times> nat \<times> nat" where
  "interleave st schedule = foldl interleave_step (st, 0, 0) schedule"

section \<open>loadConfig (lines 19-67)\<close>

text \<open>
  What the script finds where it looks for config.json: no file, a file that cannot be
  read or parsed, or the parsed value.
\<close>

datatype config_file = NoFile | Unparsable | Parsed jsval

text \<open>
  How the start-up code ends: \<^verbatim>\<open>process.exit\<close> with a status, an uncaught TypeError
  (Node prints it and exits with status 1), or the script goes on.
\<close>

datatype 'a startup = Exit nat | UncaughtTypeError | Continue 'a

fun exit_status :: "'a startup \<Rightarrow> nat option" where
  "exit_status (Exit n) = Some n"
| "exit_status UncaughtTypeError = Some 1"
| "exit_status (Continue x) = None"

text \<open>The callback of \<^verbatim>\<open>filter\<close> (line 49): \<^verbatim>\<open>d.name && d.zoneId\<close>, as a truth value.\<close>

definition keep_entry :: "jsval \<Rightarrow> bool option" where
  "keep_entry d =
     do {
       n \<leftarrow> get_prop d ''name'';
       if truthy n then do { z \<leftarrow> get_prop d ''zoneId''; Some (truthy z) } else Some False
     }"

fun filter_entries :: "jsval list \<Rightarrow> jsval list option" where
  "filter_entries [] = Some []"
| "filter_entries (d # ds) =
     do {
       keep \<leftarrow> keep_entry d;
       rest \<leftarrow> filter_entries ds;
       Some (if keep then d # rest else rest)
     }"

text \<open>The callback of \<^verbatim>\<open>map\<close> (lines 50-56).\<close>

definition make_domain :: "jsval \<Rightarrow> jsval \<Rightarrow> jsval \<Rightarrow> jsval \<Rightarrow> domain option" where
  "make_domain defaultApiToken defaultTtl defaultProxied d =
     do {
       d_name \<leftarrow> get_prop d ''name'';
       d_zoneId \<leftarrow> get_prop d ''zoneId'';
       d_apiToken \<leftarrow> get_prop d ''apiToken'';
       d_ttl \<leftarrow> get_prop d ''ttl'';
       d_proxied \<leftarrow> get_prop d ''proxied'';
       Some \<lparr>name = d_name,
             zoneId = d_zoneId,
             apiToken = js_or d_apiToken defaultApiToken,
             ttl = (if d_ttl \<noteq> JUndefined then d_ttl else defaultTtl),
             proxied = (if d_proxied \<noteq> JUndefined then d_proxied else defaultProxied)\<rparr>
     }"

fun map_entries :: "jsval \<Rightarrow> jsval \<Rightarrow> jsval \<Rightarrow> jsval list \<Rightarrow> domain list option" where
  "map_entries defaultApiToken defaultTtl defaultProxied [] = Some []"
| "map_entries defaultApiToken defaultTtl defaultProxied (d # ds) =
     do {
       x \<leftarrow> make_domain defaultApiToken defaultTtl defaultProxied d;
       xs \<leftarrow> map_entries defaultApiToken defaultTtl defaultProxied ds;
       Some (x # xs)
     }"

text \<open>\<^verbatim>\<open>defaults.ttl || 60\<close> (line 43), given \<^verbatim>\<open>defaults\<close>.\<close>

definition defaultTtl_of :: "jsval \<Rightarrow> jsval option" where
  "defaultTtl_of defaults = do { t \<leftarrow> get_prop defaults ''ttl''; Some (js_or t (JNum 60)) }"

text \<open>
  Lines 32-57, the part of the \<^verbatim>\<open>try\<close> block after \<^verbatim>\<open>JSON.parse\<close>: the globals it leaves,
  or \<open>None\<close> when it throws. \<^verbatim>\<open>config.domains && Array.isArray(config.domains)\<close> holds
  exactly when \<^verbatim>\<open>config.domains\<close> is an array; otherwise \<^verbatim>\<open>DOMAINS\<close> keeps its initial value.
\<close>

definition load_parsed :: "jsval \<Rightarrow> globals option" where
  "load_parsed config =
     do {
       tg \<leftarrow> get_prop config ''telegram'';
       botToken \<leftarrow> (if truthy tg then get_prop tg ''botToken'' else Some JUndefined);
       chatId \<leftarrow> (if truthy tg then get_prop tg ''chatId'' else Some JUndefined);
       config_defaults \<leftarrow> get_prop config ''defaults'';
       let defaults = js_or config_defaults (JObj []);
       defaultApiToken \<leftarrow> get_prop defaults ''apiToken'';
       defaultTtl \<leftarrow> defaultTtl_of defaults;
       defaults_proxied \<leftarrow> get_prop defaults ''proxied'';
       let defaultProxied = js_or defaults_proxied (JBool False);
       config_domains \<leftarrow> get_prop config ''domains'';
       domains \<leftarrow>
         (case config_domains of
            JArr entries \<Rightarrow>
              do {
                kept \<leftarrow> filter_entries entries;
                map_entries defaultApiToken defaultTtl defaultProxied kept
              }
          | _ \<Rightarrow> Some []);
       Some (initial_globals\<lparr>TELEGRAM_BOT_TOKEN := botToken, TELEGRAM_CHAT_ID := chatId,
                              DOMAINS := domains\<rparr>)
     }"

definition loadConfig :: "config_file \<Rightarrow> globals startup" where
  "loadConfig file =
     (case file of
        NoFile \<Rightarrow> Exit 1
      | Unparsable \<Rightarrow> Exit 1
      | Parsed config \<Rightarrow>
          (case load_parsed config of None \<Rightarrow> Exit 1 | Some st \<Rightarrow> Continue st))"

section \<open>validateConfig (lines 73-109)\<close>

datatype config_error = NoDomains | MissingName nat | MissingZoneId nat | MissingApiToken nat

text \<open>The white space \<^verbatim>\<open>trim\<close> removes, among the ASCII characters.\<close>

definition js_whitespace :: "char \<Rightarrow> bool" where
  "js_whitespace c = (c \<in> set [CHR 0x09, CHR 0x0A, CHR 0x0B, CHR 0x0C, CHR 0x0D, CHR 0x20])"

text \<open>
  \<^verbatim>\<open>v.trim() === ''\<close> for a truthy \<open>v\<close>. Only a string has a \<^verbatim>\<open>trim\<close> method: on any
  other truthy value of a JSON file the call throws a TypeError (\<open>None\<close>).
\<close>

fun trim_is_empty :: "jsval \<Rightarrow> bool option" where
  "trim_is_empty (JStr s) = Some (list_all js_whitespace s)"
| "trim_is_empty v = None"

text \<open>The callback of \<^verbatim>\<open>forEach\<close> (lines 81-91): the errors it pushes.\<close>

definition domain_errors :: "nat \<Rightarrow> domain \<Rightarrow> config_error list option" where
  "domain_errors index d =
     (let no_name = (if \<not> truthy (name d) then [MissingName (index + 1)] else []);
          no_zone = (if \<not> truthy (zoneId d) then [MissingZoneId (index + 1)] else [])
      in if \<not> truthy (apiToken d) then Some (no_name @ no_zone @ [MissingApiToken (index + 1)])
         else (case trim_is_empty (apiToken d) of
                 None \<Rightarrow> None
               | Some blank \<Rightarrow>
                   Some (no_name @ no_zone @ (if blank then [MissingApiToken (index + 1)] else []))))"

fun forEach_errors :: "nat \<Rightarrow> domain list \<Rightarrow> config_error list option" where
  "forEach_errors index [] = Some []"
| "forEach_errors index (d # ds) =
     do {
       es \<leftarrow> domain_errors index d;
       rest \<leftarrow> forEach_errors (Suc index) ds;
       Some (es @ rest)
     }"

text \<open>\<^verbatim>\<open>d.zoneId.substring(0, 8)\<close> on line 107 needs a string.\<close>

fun has_substring :: "jsval \<Rightarrow> bool" where
  "has_substring (JStr s) = True"
| "has_substring v = False"

definition validateConfig :: "globals \<Rightarrow> unit startup" where
  "validateConfig st =
     (let errors = (if DOMAINS st = [] then [NoDomains] else []) in
      case forEach_errors 0 (DOMAINS st) of
        None \<Rightarrow> UncaughtTypeError
      | Some pushed \<Rightarrow>
          if errors @ pushed \<noteq> [] then Exit 1
          else if list_all (\<lambda>d. has_substring (zoneId d)) (DOMAINS st) then Continue ()
          else UncaughtTypeError)"

text \<open>
  The start of the script: \<^verbatim>\<open>loadConfig()\<close> (line 70), then \<^verbatim>\<open>validateConfig()\<close> (line
  375). The start-up phase (line 378) is reached with the globals of \<open>Continue\<close>.
\<close>

definition load_and_validate :: "config_file \<Rightarrow> globals startup" where
  "load_and_validate file =
     (case loadConfig file of
        Exit n \<Rightarrow> Exit n
      | UncaughtTypeError \<Rightarrow> UncaughtTypeError
      | Continue st \<Rightarrow>
          (case validateConfig st of
             Exit n \<Rightarrow> Exit n
           | UncaughtTypeError \<Rightarrow> UncaughtTypeError
           | Continue u \<Rightarrow> Continue st))"

section \<open>scheduleNextCheck and gracefulShutdown (lines 328-367)\<close>

text \<open>
  The functions the script hands to a timer, and what the script asks of the runtime.
\<close>

datatype callback = RunCheck | PollCycle | ForceExit

datatype action =
    SetTimeout nat callback
  | SetInterval nat callback
  | ClearTimeout nat
  | ClearInterval
  | ProcessExit nat

definition CHECK_INTERVAL_SECONDS :: nat where
  "CHECK_INTERVAL_SECONDS = 60"

text \<open>\<open>h\<close> is the handle the runtime gives the new timer.\<close>

definition scheduleNextCheck :: "nat \<Rightarrow> globals \<Rightarrow> globals \<times> action list" where
  "scheduleNextCheck h st =
     (if isShuttingDown st then (st, [])
      else (st\<lparr>timer := Some h\<rparr>, [SetTimeout (CHECK_INTERVAL_SECONDS * 1000) RunCheck]))"

definition gracefulShutdown :: "globals \<Rightarrow> globals \<times> action list" where
  "gracefulShutdown st =
     (if isShuttingDown st then (st, [])
      else
        (let st1 = st\<lparr>isShuttingDown := True\<rparr>;
             cancel = (case timer st1 of None \<Rightarrow> [] | Some h \<Rightarrow> [ClearTimeout h])
         in if isRunning st1 then
              (st1, cancel @ [SetInterval 100 PollCycle, SetTimeout 30000 ForceExit])
            else (st1, cancel @ [ProcessExit 0])))"

text \<open>
  The two callbacks of the handler (lines 350-356, 359-362), given the value of
  \<^verbatim>\<open>isRunning\<close> when they run.
\<close>

fun run_callback :: "callback \<Rightarrow> bool \<Rightarrow> action list" where
  "run_callback PollCycle running = (if \<not> running then [ClearInterval, ProcessExit 0] else [])"
| "run_callback ForceExit running = [ProcessExit 1]"
| "run_callback RunCheck running = []"

fun first_exit :: "action list \<Rightarrow> nat option" where
  "first_exit [] = None"
| "first_exit (ProcessExit code # as) = Some code"
| "first_exit (a # as) = first_exit as"

text \<open>
  When a timer's callback runs is the runtime's choice: never before the timer is due,
  and as much later as the event loop is late. A timeline lists the callbacks in the
  order the runtime ran them, each with the time of the run in milliseconds after the
  signal. A timer set at the signal by \<^verbatim>\<open>setTimeout(f, d)\<close> can run once, at \<open>d\<close> or later.
  One set by \<^verbatim>\<open>setInterval(f, p)\<close> can run at \<open>p\<close> or later and is armed again from the time
  of that run, so its next run is at least \<open>p\<close> later. Nothing is assumed about which of
  two timers that are both due runs first. \<open>armed f\<close> is the time the interval of \<open>f\<close> was
  last armed, \<open>spent\<close> the callbacks that ran already.
\<close>

definition may_fire ::
  "action list \<Rightarrow> (callback \<Rightarrow> nat) \<Rightarrow> callback list \<Rightarrow> nat \<Rightarrow> callback \<Rightarrow> bool"
where
  "may_fire timers armed spent t f =
     list_ex (\<lambda>a. case a of
                     SetInterval p g \<Rightarrow> g = f \<and> armed f + p \<le> t
                   | SetTimeout d g \<Rightarrow> g = f \<and> d \<le> t \<and> f \<notin> set spent
                   | _ \<Rightarrow> False)
             timers"

fun timeline_ok ::
  "action list \<Rightarrow> (callback \<Rightarrow> nat) \<Rightarrow> callback list \<Rightarrow> nat \<Rightarrow> (nat \<times> callback) list \<Rightarrow> bool"
where
  "timeline_ok timers armed spent now [] = True"
| "timeline_ok timers armed spent now ((t, f) # rest) =
     (now \<le> t \<and> may_fire timers armed spent t f
      \<and> timeline_ok timers (armed(f := t)) (f # spent) t rest)"

text \<open>
  The callbacks of a timeline, run in order until one of them calls \<^verbatim>\<open>process.exit\<close>: the
  time and status of that exit, or \<open>None\<close> when no callback of the timeline exits.
  \<open>running t\<close> is \<^verbatim>\<open>isRunning\<close> at time \<open>t\<close>.
\<close>

fun run_timeline :: "(nat \<Rightarrow> bool) \<Rightarrow> (nat \<times> callback) list \<Rightarrow> (nat \<times> nat) option" where
  "run_timeline running [] = None"
| "run_timeline running ((t, f) # rest) =
     (case first_exit (run_callback f (running t)) of
        Some code \<Rightarrow> Some (t, code)
      | None \<Rightarrow> run_timeline running rest)"

text \<open>
  \<^verbatim>\<open>isRunning\<close> over time when the cycle in progress ends \<open>c\<close> milliseconds after the
  signal (\<open>None\<close>: it never ends).
\<close>

definition running_until :: "nat option \<Rightarrow> nat \<Rightarrow> bool" where
  "running_until done t = (case done of None \<Rightarrow> True | Some c \<Rightarrow> t < c)"

text \<open>
  A termination signal at time 0, followed by the timer callbacks of a timeline: when and
  with which status the process exits.
\<close>

definition on_signal ::
  "globals \<Rightarrow> nat option \<Rightarrow> (nat \<times> callback) list \<Rightarrow> (nat \<times> nat) option"
where
  "on_signal st done timeline =
     (case gracefulShutdown st of
        (st1, actions) \<Rightarrow>
          (case first_exit actions of
             Some code \<Rightarrow> Some (0, code)
           | None \<Rightarrow> run_timeline (running_until done) timeline))"

text \<open>The timelines the runtime can produce for the timers the handler sets at the signal.\<close>

definition shutdown_timeline :: "globals \<Rightarrow> (nat \<times> callback) list \<Rightarrow> bool" where
  "shutdown_timeline st timeline =
     timeline_ok (snd (gracefulShutdown st)) (\<lambda>f. 0) [] 0 timeline"

section \<open>Abbreviations and concrete inputs used in the results\<close>

text \<open>What the retry helper adds to the trace for a failed attempt \<open>a\<close> that is not the last.\<close>

definition retry_step :: "retry_context \<Rightarrow> nat \<Rightarrow> nat \<Rightarrow> (nat \<Rightarrow> js_error) \<Rightarrow> (nat \<Rightarrow> event list) \<Rightarrow> nat \<Rightarrow> event list" where
  "retry_step ctx retries d err evs a = Attempt ctx a # evs a @ [Log Warn (RetryAgain ctx a retries (err a) (backoff_delay d a)), Sleep (backoff_delay d a)]"

text \<open>An operation that fails with HTTP 501 and 502, then succeeds.\<close>

definition flaky :: "nat \<Rightarrow> (js_error + string) \<times> event list" where
  "flaky a = (if a \<le> 2 then (Inl (HttpError (500 + a)), [GetRecord 7]) else (Inr ''done'', [GetRecord 7]))"

text \<open>An update call for the domain at position \<open>i\<close>: the PATCH request of \<^verbatim>\<open>updateARecord\<close>.\<close>

fun is_patch_for :: "nat \<Rightarrow> event \<Rightarrow> bool" where
  "is_patch_for i (PatchRecord j recordId v t p) = (i = j)"
| "is_patch_for i e = False"

text \<open>Two configured domains, no Telegram credentials.\<close>

definition dom_a :: domain where
  "dom_a = \<lparr>name = JStr ''a.example'', zoneId = JStr ''zone-a'', apiToken = JStr ''token'',
             ttl = JNum 60, proxied = JBool False\<rparr>"

definition dom_b :: domain where
  "dom_b = \<lparr>name = JStr ''b.example'', zoneId = JStr ''zone-b'', apiToken = JStr ''token'',
             ttl = JNum 120, proxied = JBool True\<rparr>"

definition two_domains :: globals where
  "two_domains = initial_globals\<lparr>DOMAINS := [dom_a, dom_b]\<rparr>"

text \<open>A successful answer of the provider holding one record with the given value.\<close>

definition found :: "string \<Rightarrow> dns_body fetch_result" where
  "found v = Response True 200 (Some \<lparr>success = True, result = Some [\<lparr>content = v, rid = ''rec''\<rparr>]\<rparr>)"

text \<open>A world where the echo service says 5.6.7.8, every PATCH succeeds, Telegram is unreachable,
  and the GET requests are answered as given.\<close>

definition world_of :: "(nat \<Rightarrow> nat \<Rightarrow> dns_body fetch_result) \<Rightarrow> world" where
  "world_of answers =
     \<lparr>ipify = Response True 200 (Some \<lparr>ip = Some ''5.6.7.8''\<rparr>),
      dns_get = answers,
      dns_patch = (\<lambda>i a. Response True 200 (Some \<lparr>success = True, result = None\<rparr>)),
      telegram = (\<lambda>i a. Rejected),
      jitter = (\<lambda>i a. 0)\<rparr>"

text \<open>The record of the first domain equals the public IP, that of the second does not.\<close>

definition match_then_stale :: world where
  "match_then_stale = world_of (\<lambda>i a. if i = 0 then found ''5.6.7.8'' else found ''1.2.3.4'')"

text \<open>Every fetch for the first domain fails with HTTP 500; the record of the second is stale.\<close>

definition fail_then_stale :: world where
  "fail_then_stale = world_of (\<lambda>i a. if i = 0 then Response False 500 None else found ''1.2.3.4'')"

text \<open>HTTP 200 with \<^verbatim>\<open>success: false\<close>, and HTTP 200 with an empty record list.\<close>

definition not_successful :: world where
  "not_successful = world_of (\<lambda>i a. Response True 200 (Some \<lparr>success = False, result = None\<rparr>))"

definition no_records :: world where
  "no_records = world_of (\<lambda>i a. Response True 200 (Some \<lparr>success = True, result = Some []\<rparr>))"

text \<open>Both records are stale.\<close>

definition all_stale :: world where
  "all_stale = world_of (\<lambda>i a. found ''1.2.3.4'')"

text \<open>A \<^verbatim>\<open>try\<close> block that throws.\<close>

definition throwing_block :: "globals \<Rightarrow> js_error option \<times> event list" where
  "throwing_block st = (Some TypeError, [GetPublicIp])"

text \<open>The globals while a cycle is in progress.\<close>

definition busy :: globals where
  "busy = two_domains\<lparr>isRunning := True\<rparr>"

text \<open>\<^verbatim>\<open>v.key\<close> where it cannot throw: the value read, \<^verbatim>\<open>undefined\<close> included.\<close>

definition js_prop :: "jsval \<Rightarrow> string \<Rightarrow> jsval" where
  "js_prop v k = (case get_prop v k of None \<Rightarrow> JUndefined | Some x \<Rightarrow> x)"

text \<open>An entry of \<^verbatim>\<open>config.domains\<close> with a truthy name and a truthy zone identifier.\<close>

definition complete_entry :: "jsval \<Rightarrow> bool" where
  "complete_entry d = (truthy (js_prop d ''name'') \<and> truthy (js_prop d ''zoneId''))"

text \<open>A credential \<^verbatim>\<open>validateConfig\<close> does not accept: falsy, blank, or not a string.\<close>

definition lacks_credential :: "jsval \<Rightarrow> bool" where
  "lacks_credential v = (\<not> truthy v \<or> trim_is_empty v \<noteq> Some False)"

text \<open>A JSON value that is a positive integer.\<close>

fun positive_integer :: "jsval \<Rightarrow> bool" where
  "positive_integer (JNum n) = (0 < n)"
| "positive_integer v = False"

text \<open>A configuration whose first domain sets \<^verbatim>\<open>ttl\<close> to 0, and the globals it loads to.\<close>

definition ttl_zero_config :: jsval where
  "ttl_zero_config =
     JObj [(''defaults'', JObj [(''apiToken'', JStr ''token''), (''ttl'', JNum 300)]),
           (''domains'', JArr [JObj [(''name'', JStr ''a.example''), (''zoneId'', JStr ''zone-a''),
                                     (''ttl'', JNum 0)],
                               JObj [(''name'', JStr ''b.example''), (''zoneId'', JStr ''zone-b'')]])]"

definition ttl_zero_globals :: globals where
  "ttl_zero_globals =
     initial_globals\<lparr>DOMAINS :=
       [\<lparr>name = JStr ''a.example'', zoneId = JStr ''zone-a'', apiToken = JStr ''token'',
         ttl = JNum 0, proxied = JBool False\<rparr>,
        \<lparr>name = JStr ''b.example'', zoneId = JStr ''zone-b'', apiToken = JStr ''token'',
         ttl = JNum 300, proxied = JBool False\<rparr>]\<rparr>"

text \<open>A loaded domain that misses its name, its zone identifier or a credential.\<close>

definition incomplete_target :: "domain \<Rightarrow> bool" where
  "incomplete_target d =
     (\<not> truthy (name d) \<or> \<not> truthy (zoneId d) \<or> lacks_credential (apiToken d))"

text \<open>A configuration with one complete entry and one entry without a name, and the globals it
  loads to.\<close>

definition nameless_entry_config :: jsval where
  "nameless_entry_config =
     JObj [(''defaults'', JObj [(''apiToken'', JStr ''token'')]),
           (''domains'', JArr [JObj [(''name'', JStr ''a.example''), (''zoneId'', JStr ''zone-a'')],
                               JObj [(''zoneId'', JStr ''zone-b'')]])]"

definition nameless_entry_globals :: globals where
  "nameless_entry_globals =
     initial_globals\<lparr>DOMAINS :=
       [\<lparr>name = JStr ''a.example'', zoneId = JStr ''zone-a'', apiToken = JStr ''token'',
         ttl = JNum 60, proxied = JBool False\<rparr>]\<rparr>"

text \<open>A configuration whose only domain has no credential, of its own or inherited.\<close>

definition no_token_config :: jsval where
  "no_token_config =
     JObj [(''domains'', JArr [JObj [(''name'', JStr ''a.example''), (''zoneId'', JStr ''zone-a'')]])]"

definition no_token_globals :: globals where
  "no_token_globals =
     initial_globals\<lparr>DOMAINS :=
       [\<lparr>name = JStr ''a.example'', zoneId = JStr ''zone-a'', apiToken = JUndefined,
         ttl = JNum 60, proxied = JBool False\<rparr>]\<rparr>"

text \<open>The globals between two cycles, with the next check scheduled, and during a cycle.\<close>

definition scheduled :: globals where
  "scheduled = initial_globals\<lparr>timer := Some 7\<rparr>"

definition in_cycle :: globals where
  "in_cycle = initial_globals\<lparr>isRunning := True, timer := Some 7\<rparr>"


text \<open>A timeline with three polls, each a little late, and the timer 2 ms late.\<close>

definition three_polls :: "(nat \<times> callback) list" where
  "three_polls = [(100, PollCycle), (203, PollCycle), (310, PollCycle), (30002, ForceExit)]"

text \<open>A timeline where the first poll runs 1 ms late and every later poll runs when it is due:
  polls at 101, 201, ..., 29901 ms, the next one due at 30001 ms, and the timer at 30000 ms.\<close>

definition late_polls :: "(nat \<times> callback) list" where
  "late_polls = map (\<lambda>k. (100 * k + 1, PollCycle)) [1..<300] @ [(30000, ForceExit)]"

section \<open>The retry helper\<close>

lemma retry_loop_success:
  "attempt \<le> retries \<Longrightarrow> fn attempt = (Inr v, evs) \<Longrightarrow>
   retry_loop fn ctx retries d attempt = (Value v, Attempt ctx attempt # evs)"
  by (subst retry_loop.simps) simp

lemma retry_step_default:
  "retry_step ctx 3 1000 err evs =
     (\<lambda>a. Attempt ctx a # evs a
             @ [Log Warn (RetryAgain ctx a 3 (err a) (min (1000 * 2 ^ (a - 1)) 10000)),
                Sleep (min (1000 * 2 ^ (a - 1)) 10000)])"
  by (simp add: fun_eq_iff retry_step_def backoff_delay_def)

lemma retry_loop_failure:
  "attempt < retries \<Longrightarrow> fn attempt = (Inl e, evs) \<Longrightarrow>
   retry_loop fn ctx retries d attempt =
     (fst (retry_loop fn ctx retries d (Suc attempt)),
      Attempt ctx attempt # evs
        @ [Log Warn (RetryAgain ctx attempt retries e (backoff_delay d attempt)),
           Sleep (backoff_delay d attempt)]
        @ snd (retry_loop fn ctx retries d (Suc attempt)))"
  by (subst retry_loop.simps) (simp add: Let_def split: prod.splits)

lemma retry_loop_last_failure:
  "fn retries = (Inl e, evs) \<Longrightarrow>
   retry_loop fn ctx retries d retries =
     (Raise e, Attempt ctx retries # evs @ [Log Error (RetryExhausted ctx retries e)])"
  by (subst retry_loop.simps) (simp add: Let_def)

lemma retry_loop_fails_then_succeeds:
  "attempt \<le> n \<Longrightarrow> n \<le> retries \<Longrightarrow>
   (\<forall>a. attempt \<le> a \<and> a < n \<longrightarrow> fn a = (Inl (err a), evs a)) \<Longrightarrow>
   fn n = (Inr v, evs n) \<Longrightarrow>
   retry_loop fn ctx retries d attempt =
     (Value v, concat (map (retry_step ctx retries d err evs) [attempt..<n]) @ Attempt ctx n # evs n)"
proof (induction "n - attempt" arbitrary: attempt)
  case 0
  then have "attempt = n" by simp
  with 0 show ?case by (simp add: retry_loop_success)
next
  case (Suc k)
  then have lt: "attempt < n" and k: "k = n - Suc attempt" by simp_all
  from Suc.prems lt have f: "fn attempt = (Inl (err attempt), evs attempt)" by simp
  have ih: "retry_loop fn ctx retries d (Suc attempt) =
     (Value v, concat (map (retry_step ctx retries d err evs) [Suc attempt..<n]) @ Attempt ctx n # evs n)"
    using Suc.hyps(1)[OF k] Suc.prems lt by simp
  from lt Suc.prems have "attempt < retries" by simp
  from retry_loop_failure[of attempt retries fn "err attempt" "evs attempt" ctx d] this f ih lt show ?case
    by (simp add: upt_conv_Cons retry_step_def)
qed

lemma retry_loop_all_fail:
  "attempt \<le> retries \<Longrightarrow>
   (\<forall>a. attempt \<le> a \<and> a \<le> retries \<longrightarrow> fn a = (Inl (err a), evs a)) \<Longrightarrow>
   retry_loop fn ctx retries d attempt =
     (Raise (err retries),
      concat (map (retry_step ctx retries d err evs) [attempt..<retries])
        @ Attempt ctx retries # evs retries @ [Log Error (RetryExhausted ctx retries (err retries))])"
proof (induction "retries - attempt" arbitrary: attempt)
  case 0
  then have "attempt = retries" by simp
  with 0 show ?case by (simp add: retry_loop_last_failure)
next
  case (Suc k)
  then have lt: "attempt < retries" and k: "k = retries - Suc attempt" by simp_all
  from Suc.prems have f: "fn attempt = (Inl (err attempt), evs attempt)" by simp
  have ih: "retry_loop fn ctx retries d (Suc attempt) =
     (Raise (err retries),
      concat (map (retry_step ctx retries d err evs) [Suc attempt..<retries])
        @ Attempt ctx retries # evs retries @ [Log Error (RetryExhausted ctx retries (err retries))])"
    using Suc.hyps(1)[OF k] Suc.prems lt by simp
  from retry_loop_failure[of attempt retries fn "err attempt" "evs attempt" ctx d] f ih lt show ?case
    by (simp add: upt_conv_Cons retry_step_def)
qed


text \<open>
  C2. With the default options (3 attempts, 1000 ms), an operation that fails at attempts
  1..K, K < 3, and succeeds at attempt K + 1 makes the helper return that value; the
  trace holds exactly the attempts 1..K + 1, and after each failed attempt \<open>a\<close> one warning
  and one wait of \<open>min (1000 * 2 ^ (a - 1)) 10000\<close> ms, nothing random added. When all
  three attempts fail, the helper throws the error of the third, after waits of 1000
  and 2000 ms.
\<close>

theorem retryCloudflareAPI_backoff:
  "(K < 3 \<and> (\<forall>a. 1 \<le> a \<and> a \<le> K \<longrightarrow> fn a = (Inl (err a), evs a)) \<and> fn (K + 1) = (Inr v, evs (K + 1))
      \<longrightarrow> retryCloudflareAPI fn ctx =
            (Value v,
             concat (map (\<lambda>a. Attempt ctx a # evs a
                               @ [Log Warn (RetryAgain ctx a 3 (err a) (min (1000 * 2 ^ (a - 1)) 10000)),
                                  Sleep (min (1000 * 2 ^ (a - 1)) 10000)])
                         [1..<K + 1])
               @ Attempt ctx (K + 1) # evs (K + 1)))
   \<and> ((\<forall>a. 1 \<le> a \<and> a \<le> 3 \<longrightarrow> fn a = (Inl (err a), evs a))
      \<longrightarrow> retryCloudflareAPI fn ctx =
            (Raise (err 3),
             Attempt ctx 1 # evs 1 @ [Log Warn (RetryAgain ctx 1 3 (err 1) 1000), Sleep 1000]
               @ Attempt ctx 2 # evs 2 @ [Log Warn (RetryAgain ctx 2 3 (err 2) 2000), Sleep 2000]
               @ Attempt ctx 3 # evs 3 @ [Log Error (RetryExhausted ctx 3 (err 3))]))"
proof (intro conjI impI)
  assume h: "K < 3 \<and> (\<forall>a. 1 \<le> a \<and> a \<le> K \<longrightarrow> fn a = (Inl (err a), evs a)) \<and> fn (K + 1) = (Inr v, evs (K + 1))"
  then have fails: "\<forall>a. 1 \<le> a \<and> a < K + 1 \<longrightarrow> fn a = (Inl (err a), evs a)" by simp
  from h have "retry_loop fn ctx 3 1000 1 =
     (Value v, concat (map (retry_step ctx 3 1000 err evs) [1..<K + 1]) @ Attempt ctx (K + 1) # evs (K + 1))"
    by (intro retry_loop_fails_then_succeeds fails) simp_all
  then show "retryCloudflareAPI fn ctx =
            (Value v,
             concat (map (\<lambda>a. Attempt ctx a # evs a
                               @ [Log Warn (RetryAgain ctx a 3 (err a) (min (1000 * 2 ^ (a - 1)) 10000)),
                                  Sleep (min (1000 * 2 ^ (a - 1)) 10000)])
                         [1..<K + 1])
               @ Attempt ctx (K + 1) # evs (K + 1))"
    by (simp only: retryCloudflareAPI_def retry_step_default)
next
  assume h: "\<forall>a. 1 \<le> a \<and> a \<le> 3 \<longrightarrow> fn a = (Inl (err a), evs a)"
  have u: "[Suc 0..<3] = [Suc 0, 2]" by (simp add: upt_rec)
  have "retry_loop fn ctx 3 1000 1 =
     (Raise (err 3),
      concat (map (retry_step ctx 3 1000 err evs) [1..<3])
        @ Attempt ctx 3 # evs 3 @ [Log Error (RetryExhausted ctx 3 (err 3))])"
    by (rule retry_loop_all_fail) (use h in simp_all)
  then show "retryCloudflareAPI fn ctx =
            (Raise (err 3),
             Attempt ctx 1 # evs 1 @ [Log Warn (RetryAgain ctx 1 3 (err 1) 1000), Sleep 1000]
               @ Attempt ctx 2 # evs 2 @ [Log Warn (RetryAgain ctx 2 3 (err 2) 2000), Sleep 2000]
               @ Attempt ctx 3 # evs 3 @ [Log Error (RetryExhausted ctx 3 (err 3))])"
    by (simp add: retryCloudflareAPI_def retry_step_default u)
qed

theorem retryCloudflareAPI_backoff_witness:
  "(2::nat) < 3 \<and> flaky 1 = (Inl (HttpError 501), [GetRecord 7]) \<and> flaky 2 = (Inl (HttpError 502), [GetRecord 7])
   \<and> flaky 3 = (Inr ''done'', [GetRecord 7])
   \<and> retryCloudflareAPI flaky (FetchingRecord 7) =
       (Value ''done'',
        [Attempt (FetchingRecord 7) 1, GetRecord 7,
         Log Warn (RetryAgain (FetchingRecord 7) 1 3 (HttpError 501) 1000), Sleep 1000,
         Attempt (FetchingRecord 7) 2, GetRecord 7,
         Log Warn (RetryAgain (FetchingRecord 7) 2 3 (HttpError 502) 2000), Sleep 2000,
         Attempt (FetchingRecord 7) 3, GetRecord 7])"
proof -
  have u: "[Suc 0..<3] = [Suc 0, 2]" by (simp add: upt_rec)
  have h: "\<forall>a. 1 \<le> a \<and> a \<le> 2 \<longrightarrow> flaky a = (Inl (HttpError (500 + a)), [GetRecord 7])"
    by (simp add: flaky_def)
  have s: "flaky (2 + 1) = (Inr ''done'', [GetRecord 7])" by (simp add: flaky_def)
  from retryCloudflareAPI_backoff [of 2 flaky "\<lambda>a. HttpError (500 + a)" "\<lambda>a. [GetRecord 7]" "''done''" "FetchingRecord 7"] h s
  show ?thesis by (simp add: u flaky_def)
qed

section \<open>What the trace of a cycle can hold\<close>

lemma retry_loop_events:
  assumes fn: "\<And>a. \<forall>e \<in> set (snd (fn a)). P e"
    and own: "\<And>a. P (Attempt ctx a)" "\<And>l m. P (Log l m)" "\<And>n. P (Sleep n)"
  shows "\<forall>e \<in> set (snd (retry_loop fn ctx retries d attempt)). P e"
proof (induction "Suc retries - attempt" arbitrary: attempt)
  case 0
  then have "\<not> attempt \<le> retries" by simp
  then show ?case by (subst retry_loop.simps) simp
next
  case (Suc k)
  then have le: "attempt \<le> retries" and k: "k = Suc retries - Suc attempt" by simp_all
  note ih = Suc.hyps(1)[OF k]
  obtain r evs where f: "fn attempt = (r, evs)" by (cases "fn attempt")
  with fn[of attempt] have evs: "\<forall>e \<in> set evs. P e" by simp
  obtain r' rest where rec: "retry_loop fn ctx retries d (Suc attempt) = (r', rest)"
    by (cases "retry_loop fn ctx retries d (Suc attempt)")
  with ih have rest: "\<forall>e \<in> set rest. P e" by simp
  show ?case
    by (subst retry_loop.simps)
       (use le f evs rec rest own in \<open>auto simp: Let_def split: sum.splits\<close>)
qed

lemma telegram_loop_events:
  assumes own: "P (PostTelegram i)" "\<And>l m. P (Log l m)" "\<And>n. P (Sleep n)"
  shows "\<forall>e \<in> set (snd (telegram_loop w i retries d attempt)). P e"
proof (induction "Suc retries - attempt" arbitrary: attempt)
  case 0
  then have "\<not> attempt \<le> retries" by simp
  then show ?case by (subst telegram_loop.simps) simp
next
  case (Suc k)
  then have le: "attempt \<le> retries" and k: "k = Suc retries - Suc attempt" by simp_all
  note ih = Suc.hyps(1)[OF k]
  obtain r' rest where rec: "telegram_loop w i retries d (Suc attempt) = (r', rest)"
    by (cases "telegram_loop w i retries d (Suc attempt)")
  with ih have rest: "\<forall>e \<in> set rest. P e" by simp
  show ?case
    by (subst telegram_loop.simps)
       (use le rec rest own in \<open>auto simp: Let_def split: option.splits\<close>)
qed

lemma getARecord_attempt_no_patch:
  "\<forall>e \<in> set (snd (getARecord_attempt w i a)). \<not> is_patch_for k e"
  by (auto simp: getARecord_attempt_def split: fetch_result.splits option.splits list.splits)

lemma getARecord_no_patch: "\<forall>e \<in> set (snd (getARecord w i)). \<not> is_patch_for k e"
proof -
  have "\<forall>e \<in> set (snd (retry_loop (getARecord_attempt w i) (FetchingRecord i) 3 1000 1)). \<not> is_patch_for k e"
    by (rule retry_loop_events[where P = "\<lambda>e. \<not> is_patch_for k e"])
       (simp_all add: getARecord_attempt_no_patch)
  then show ?thesis
    by (auto simp: getARecord_def retryCloudflareAPI_def split: prod.splits outcome.splits)
qed

lemma sendTelegramMessage_no_patch:
  "\<forall>e \<in> set (snd (sendTelegramMessage st w i)). \<not> is_patch_for k e"
proof -
  have "\<forall>e \<in> set (snd (telegram_loop w i 5 500 1)). \<not> is_patch_for k e"
    by (rule telegram_loop_events[where P = "\<lambda>e. \<not> is_patch_for k e"]) simp_all
  then show ?thesis by (simp add: sendTelegramMessage_def)
qed

lemma updateARecord_attempt_patch:
  "\<forall>e \<in> set (snd (updateARecord_attempt w i d recordId newIp a)). k \<noteq> i \<longrightarrow> \<not> is_patch_for k e"
  by (auto simp: updateARecord_attempt_def Let_def split: fetch_result.splits option.splits)

lemma updateARecord_patch:
  "\<forall>e \<in> set (updateARecord st w i d recordId newIp oldIp). k \<noteq> i \<longrightarrow> \<not> is_patch_for k e"
proof -
  obtain r evs where run:
    "retryCloudflareAPI (updateARecord_attempt w i d recordId newIp) (UpdatingRecord i) = (r, evs)"
    by (cases "retryCloudflareAPI (updateARecord_attempt w i d recordId newIp) (UpdatingRecord i)")
  have "\<forall>e \<in> set (snd (retry_loop (updateARecord_attempt w i d recordId newIp) (UpdatingRecord i) 3 1000 1)).
          k \<noteq> i \<longrightarrow> \<not> is_patch_for k e"
    by (rule retry_loop_events[where P = "\<lambda>e. k \<noteq> i \<longrightarrow> \<not> is_patch_for k e"])
       (simp_all add: updateARecord_attempt_patch)
  with run have evs: "\<forall>e \<in> set evs. k \<noteq> i \<longrightarrow> \<not> is_patch_for k e"
    by (simp add: retryCloudflareAPI_def)
  have tg: "\<forall>e \<in> set (snd (sendTelegramMessage st w i)). \<not> is_patch_for k e"
    by (rule sendTelegramMessage_no_patch)
  show ?thesis
  proof (cases r)
    case (Value updated)
    with run evs tg show ?thesis by (cases updated) (simp_all add: updateARecord_def ball_Un)
  next
    case Undefined
    with run evs show ?thesis by (simp add: updateARecord_def)
  next
    case (Raise error)
    with run evs show ?thesis by (simp add: updateARecord_def)
  qed
qed

lemma reconcile_domain_cases:
  "reconcile_domain st w publicIp i d =
     (case fst (getARecord w i) of
        None \<Rightarrow> snd (getARecord w i)
      | Some snapshot \<Rightarrow>
          if content snapshot = publicIp
          then snd (getARecord w i) @ [Log Info (RecordMatches i publicIp)]
          else snd (getARecord w i) @ [Log Info (RecordDiffers i (content snapshot) publicIp)]
                 @ updateARecord st w i d (rid snapshot) publicIp (content snapshot))"
  by (cases "getARecord w i") (simp add: reconcile_domain_def split: option.splits)

lemma reconcile_domain_other:
  "k \<noteq> i \<Longrightarrow> \<forall>e \<in> set (reconcile_domain st w publicIp i d). \<not> is_patch_for k e"
  using getARecord_no_patch[of w i k] updateARecord_patch[of st w i d _ publicIp _ k]
  by (cases "fst (getARecord w i)") (auto simp: reconcile_domain_cases)

lemma reconcile_domain_match:
  "fst (getARecord w i) = Some snapshot \<Longrightarrow> content snapshot = publicIp \<Longrightarrow>
   \<forall>e \<in> set (reconcile_domain st w publicIp i d). \<not> is_patch_for k e"
  using getARecord_no_patch[of w i k]
  by (auto simp: reconcile_domain_cases)

lemma reconcile_domain_skip:
  "fst (getARecord w i) = None \<Longrightarrow> reconcile_domain st w publicIp i d = snd (getARecord w i)"
  by (simp add: reconcile_domain_cases)

lemma for_domains_append:
  "for_domains st w publicIp i (xs @ ys) =
     for_domains st w publicIp i xs @ for_domains st w publicIp (i + length xs) ys"
  by (induction xs arbitrary: i) simp_all

lemma for_domains_split:
  "i < length ds \<Longrightarrow>
   for_domains st w publicIp 0 ds =
     for_domains st w publicIp 0 (take i ds)
       @ reconcile_domain st w publicIp i (ds ! i)
       @ for_domains st w publicIp (Suc i) (drop (Suc i) ds)"
proof -
  assume i: "i < length ds"
  then have "ds = take i ds @ (ds ! i) # drop (Suc i) ds" by (simp add: id_take_nth_drop)
  then have "for_domains st w publicIp 0 ds =
      for_domains st w publicIp 0 (take i ds @ (ds ! i) # drop (Suc i) ds)" by simp
  also have "\<dots> = for_domains st w publicIp 0 (take i ds)
       @ reconcile_domain st w publicIp i (ds ! i)
       @ for_domains st w publicIp (Suc i) (drop (Suc i) ds)"
    using i by (simp add: for_domains_append)
  finally show ?thesis .
qed

lemma for_domains_other:
  "\<forall>j. k \<le> j \<and> j < k + length ds \<longrightarrow> j \<noteq> i \<Longrightarrow>
   \<forall>e \<in> set (for_domains st w publicIp k ds). \<not> is_patch_for i e"
proof (induction ds arbitrary: k)
  case Nil
  then show ?case by simp
next
  case (Cons d ds)
  from Cons.prems have "i \<noteq> k" by auto
  then have a: "\<forall>e \<in> set (reconcile_domain st w publicIp k d). \<not> is_patch_for i e"
    by (rule reconcile_domain_other)
  from Cons.prems have "\<forall>j. Suc k \<le> j \<and> j < Suc k + length ds \<longrightarrow> j \<noteq> i" by auto
  then have "\<forall>e \<in> set (for_domains st w publicIp (Suc k) ds). \<not> is_patch_for i e"
    by (rule Cons.IH)
  with a show ?case by auto
qed

section \<open>The cycle\<close>

lemma getPublicIp_no_patch: "\<forall>e \<in> set (snd (getPublicIp w)). \<not> is_patch_for k e"
  by (auto simp: getPublicIp_def split: fetch_result.splits option.splits)

lemma checkAndUpdate_trace:
  "\<not> isRunning st \<Longrightarrow>
   checkAndUpdate w st = (st\<lparr>isRunning := False\<rparr>, try_block w (st\<lparr>isRunning := True\<rparr>))"
  by (cases "try_block w (st\<lparr>isRunning := True\<rparr>)")
     (simp add: checkAndUpdate_def checkAndUpdate_with_def checkAndUpdate_enter_def
        checkAndUpdate_leave_def)

lemma try_block_cases:
  "try_block w st =
     (None,
      case fst (getPublicIp w) of
        None \<Rightarrow> snd (getPublicIp w) @ [Log Error NoPublicIp]
      | Some publicIp \<Rightarrow>
          if publicIp = [] then snd (getPublicIp w) @ [Log Error NoPublicIp]
          else snd (getPublicIp w) @ for_domains st w publicIp 0 (DOMAINS st))"
  by (cases "getPublicIp w") (simp add: try_block_def split: option.splits)

text \<open>
  C3. In a cycle that gets past the guard, for the domain at any position \<open>i\<close> of
  \<^verbatim>\<open>DOMAINS\<close>: when the record fetched for it has a value equal, as a string, to the public
  IP resolved for the cycle, the trace of the cycle holds no PATCH request for that
  position. With no update issued, the provider's records are what they were.
\<close>

theorem no_update_when_record_matches:
  assumes "\<not> isRunning st" and "i < length (DOMAINS st)"
    and "fst (getPublicIp w) = Some publicIp"
    and "fst (getARecord w i) = Some snapshot" and "content snapshot = publicIp"
  shows "\<forall>e \<in> set (snd (snd (checkAndUpdate w st))). \<not> is_patch_for i e"
proof (cases "publicIp = []")
  case True
  with assms getPublicIp_no_patch[of w i] show ?thesis
    by (simp add: checkAndUpdate_trace try_block_cases)
next
  case False
  let ?st = "st\<lparr>isRunning := True\<rparr>"
  have i: "i < length (DOMAINS ?st)" using assms(2) by simp
  have before: "\<forall>e \<in> set (for_domains ?st w publicIp 0 (take i (DOMAINS ?st))). \<not> is_patch_for i e"
    by (rule for_domains_other) simp
  have here: "\<forall>e \<in> set (reconcile_domain ?st w publicIp i (DOMAINS ?st ! i)). \<not> is_patch_for i e"
    using assms(4,5) by (rule reconcile_domain_match)
  have after: "\<forall>e \<in> set (for_domains ?st w publicIp (Suc i) (drop (Suc i) (DOMAINS ?st))). \<not> is_patch_for i e"
    by (rule for_domains_other) simp
  have "\<forall>e \<in> set (for_domains ?st w publicIp 0 (DOMAINS ?st)). \<not> is_patch_for i e"
    unfolding for_domains_split[OF i] using before here after by (simp add: ball_Un)
  with assms(1,3) False getPublicIp_no_patch[of w i] show ?thesis
    by (simp add: checkAndUpdate_trace try_block_cases ball_Un)
qed

lemma retryCloudflareAPI_first_success:
  "fn 1 = (Inr v, evs) \<Longrightarrow> retryCloudflareAPI fn ctx = (Value v, Attempt ctx 1 # evs)"
  by (simp add: retryCloudflareAPI_def retry_loop_success)

lemma getARecord_found:
  "dns_get w i 1 = Response True status (Some \<lparr>success = True, result = Some (r # rs)\<rparr>) \<Longrightarrow>
   getARecord w i = (Some r, [Attempt (FetchingRecord i) 1, GetRecord i])"
  by (simp add: getARecord_def getARecord_attempt_def
        retryCloudflareAPI_first_success[where v = "Some r" and evs = "[GetRecord i]"])

theorem no_update_when_record_matches_witness:
  "\<not> isRunning two_domains \<and> (0::nat) < length (DOMAINS two_domains)
   \<and> fst (getPublicIp match_then_stale) = Some ''5.6.7.8''
   \<and> fst (getARecord match_then_stale 0) = Some \<lparr>content = ''5.6.7.8'', rid = ''rec''\<rparr>
   \<and> filter (is_patch_for 0) (snd (snd (checkAndUpdate match_then_stale two_domains))) = []"
proof -
  have a: "\<not> isRunning two_domains" and b: "0 < length (DOMAINS two_domains)"
    by (simp_all add: two_domains_def initial_globals_def)
  have c: "fst (getPublicIp match_then_stale) = Some ''5.6.7.8''"
    by (simp add: getPublicIp_def match_then_stale_def world_of_def)
  have "dns_get match_then_stale 0 1 =
      Response True 200 (Some \<lparr>success = True, result = Some [\<lparr>content = ''5.6.7.8'', rid = ''rec''\<rparr>]\<rparr>)"
    by (simp add: match_then_stale_def world_of_def found_def)
  then have d: "fst (getARecord match_then_stale 0) = Some \<lparr>content = ''5.6.7.8'', rid = ''rec''\<rparr>"
    by (simp add: getARecord_found)
  have e: "content \<lparr>content = ''5.6.7.8'', rid = ''rec''\<rparr> = ''5.6.7.8''" by simp
  from no_update_when_record_matches [OF a b c d e] a b c d show ?thesis
    by (simp add: filter_empty_conv)
qed

lemma retry_loop_first_events:
  "attempt \<le> retries \<Longrightarrow> set (snd (fn attempt)) \<subseteq> set (snd (retry_loop fn ctx retries d attempt))"
  by (subst retry_loop.simps) (auto simp: Let_def split: prod.splits sum.splits)

lemma getARecord_requests: "GetRecord i \<in> set (snd (getARecord w i))"
proof -
  have "GetRecord i \<in> set (snd (getARecord_attempt w i 1))"
    by (auto simp: getARecord_attempt_def split: fetch_result.splits option.splits list.splits)
  moreover have "set (snd (getARecord_attempt w i 1))
      \<subseteq> set (snd (retry_loop (getARecord_attempt w i) (FetchingRecord i) 3 1000 1))"
    by (rule retry_loop_first_events) simp
  ultimately have "GetRecord i \<in> set (snd (retryCloudflareAPI (getARecord_attempt w i) (FetchingRecord i)))"
    by (auto simp: retryCloudflareAPI_def)
  then show ?thesis
    by (cases "retryCloudflareAPI (getARecord_attempt w i) (FetchingRecord i)")
       (auto simp: getARecord_def split: outcome.splits)
qed

lemma updateARecord_requests:
  "PatchRecord i recordId newIp (ttl d) (proxied d) \<in> set (updateARecord st w i d recordId newIp oldIp)"
proof -
  let ?fn = "updateARecord_attempt w i d recordId newIp"
  have "PatchRecord i recordId newIp (ttl d) (proxied d) \<in> set (snd (?fn 1))"
    by (auto simp: updateARecord_attempt_def Let_def split: fetch_result.splits option.splits)
  moreover have "set (snd (?fn 1)) \<subseteq> set (snd (retry_loop ?fn (UpdatingRecord i) 3 1000 1))"
    by (rule retry_loop_first_events) simp
  ultimately have "PatchRecord i recordId newIp (ttl d) (proxied d)
      \<in> set (snd (retryCloudflareAPI ?fn (UpdatingRecord i)))"
    by (auto simp: retryCloudflareAPI_def)
  then show ?thesis
    by (cases "retryCloudflareAPI ?fn (UpdatingRecord i)")
       (auto simp: updateARecord_def split: outcome.splits)
qed

lemma getARecord_all_fail:
  assumes "\<forall>a. 1 \<le> a \<and> a \<le> 3 \<longrightarrow> fst (getARecord_attempt w i a) = Inl (err a)"
  shows "getARecord w i =
     (None,
      concat (map (retry_step (FetchingRecord i) 3 1000 err (\<lambda>a. snd (getARecord_attempt w i a))) [1..<3])
        @ Attempt (FetchingRecord i) 3 # snd (getARecord_attempt w i 3)
        @ [Log Error (RetryExhausted (FetchingRecord i) 3 (err 3)),
           Log Error (FetchRecordError i (err 3))])"
proof -
  from assms have "\<forall>a. 1 \<le> a \<and> a \<le> 3 \<longrightarrow>
      getARecord_attempt w i a = (Inl (err a), snd (getARecord_attempt w i a))"
    by (simp add: prod_eq_iff)
  then have "retry_loop (getARecord_attempt w i) (FetchingRecord i) 3 1000 1 =
     (Raise (err 3),
      concat (map (retry_step (FetchingRecord i) 3 1000 err (\<lambda>a. snd (getARecord_attempt w i a))) [1..<3])
        @ Attempt (FetchingRecord i) 3 # snd (getARecord_attempt w i 3)
        @ [Log Error (RetryExhausted (FetchingRecord i) 3 (err 3))])"
    by (intro retry_loop_all_fail) simp_all
  then show ?thesis by (simp add: getARecord_def retryCloudflareAPI_def)
qed

lemma reconcile_domain_in_loop:
  "j < length ds \<Longrightarrow>
   set (reconcile_domain st w publicIp j (ds ! j)) \<subseteq> set (for_domains st w publicIp 0 ds)"
  by (subst for_domains_split[of j ds]) auto

text \<open>
  C6. In a cycle with a non-empty public IP, when the three attempts to fetch the record of
  the domain at position \<open>i\<close> all fail: \<^verbatim>\<open>getARecord\<close> returns \<^verbatim>\<open>null\<close> and logs the error, no
  error escapes the cycle, no PATCH is issued for position \<open>i\<close>, and what follows in the
  trace is exactly the loop over the later domains: each of them is fetched, and
  patched with the public IP when its record is found and differs.
\<close>

theorem fetch_failure_confined:
  assumes run: "\<not> isRunning st"
    and addr: "fst (getPublicIp w) = Some publicIp" "publicIp \<noteq> []"
    and i: "i < length (DOMAINS st)"
    and fails: "\<forall>a. 1 \<le> a \<and> a \<le> 3 \<longrightarrow> fst (getARecord_attempt w i a) = Inl (err a)"
  shows "fst (getARecord w i) = None
    \<and> Log Error (FetchRecordError i (err 3)) \<in> set (snd (getARecord w i))
    \<and> fst (snd (checkAndUpdate w st)) = None
    \<and> (\<exists>before. snd (snd (checkAndUpdate w st)) =
          before @ snd (getARecord w i)
            @ for_domains (st\<lparr>isRunning := True\<rparr>) w publicIp (Suc i) (drop (Suc i) (DOMAINS st)))
    \<and> (\<forall>e \<in> set (snd (snd (checkAndUpdate w st))). \<not> is_patch_for i e)
    \<and> (\<forall>j. i < j \<and> j < length (DOMAINS st) \<longrightarrow>
          GetRecord j \<in> set (snd (snd (checkAndUpdate w st)))
          \<and> (\<forall>snapshot. fst (getARecord w j) = Some snapshot \<and> content snapshot \<noteq> publicIp \<longrightarrow>
                PatchRecord j (rid snapshot) publicIp (ttl (DOMAINS st ! j)) (proxied (DOMAINS st ! j))
                  \<in> set (snd (snd (checkAndUpdate w st)))))"
proof -
  let ?st = "st\<lparr>isRunning := True\<rparr>"
  let ?trace = "snd (snd (checkAndUpdate w st))"
  note all_fail = getARecord_all_fail[OF fails]
  have none: "fst (getARecord w i) = None" by (simp add: all_fail)
  have logged: "Log Error (FetchRecordError i (err 3)) \<in> set (snd (getARecord w i))"
    by (simp add: all_fail)
  have trace: "?trace = snd (getPublicIp w) @ for_domains ?st w publicIp 0 (DOMAINS ?st)"
    using run addr by (simp add: checkAndUpdate_trace try_block_cases)
  have completes: "fst (snd (checkAndUpdate w st)) = None"
    using run by (simp add: checkAndUpdate_trace try_block_cases)
  have i': "i < length (DOMAINS ?st)" using i by simp
  have skip: "reconcile_domain ?st w publicIp i (DOMAINS ?st ! i) = snd (getARecord w i)"
    using none by (rule reconcile_domain_skip)
  have split: "?trace =
      (snd (getPublicIp w) @ for_domains ?st w publicIp 0 (take i (DOMAINS ?st)))
        @ snd (getARecord w i)
        @ for_domains ?st w publicIp (Suc i) (drop (Suc i) (DOMAINS st))"
    unfolding trace for_domains_split[OF i'] skip by simp
  have no_patch: "\<forall>e \<in> set ?trace. \<not> is_patch_for i e"
  proof -
    have "\<forall>e \<in> set (for_domains ?st w publicIp 0 (take i (DOMAINS ?st))). \<not> is_patch_for i e"
      by (rule for_domains_other) simp
    moreover have "\<forall>e \<in> set (for_domains ?st w publicIp (Suc i) (drop (Suc i) (DOMAINS st))). \<not> is_patch_for i e"
      by (rule for_domains_other) simp
    ultimately show ?thesis
      unfolding split using getPublicIp_no_patch[of w i] getARecord_no_patch[of w i i]
      by (simp add: ball_Un)
  qed
  have later: "GetRecord j \<in> set ?trace
      \<and> (\<forall>snapshot. fst (getARecord w j) = Some snapshot \<and> content snapshot \<noteq> publicIp \<longrightarrow>
            PatchRecord j (rid snapshot) publicIp (ttl (DOMAINS st ! j)) (proxied (DOMAINS st ! j))
              \<in> set ?trace)"
    if j: "j < length (DOMAINS st)" for j
  proof -
    have sub: "set (reconcile_domain ?st w publicIp j (DOMAINS ?st ! j)) \<subseteq> set ?trace"
      unfolding trace using reconcile_domain_in_loop[of j "DOMAINS ?st" ?st w publicIp] j by auto
    have "GetRecord j \<in> set (reconcile_domain ?st w publicIp j (DOMAINS ?st ! j))"
      using getARecord_requests[of j w]
      by (cases "fst (getARecord w j)") (auto simp: reconcile_domain_cases)
    moreover have "PatchRecord j (rid snapshot) publicIp (ttl (DOMAINS st ! j)) (proxied (DOMAINS st ! j))
          \<in> set (reconcile_domain ?st w publicIp j (DOMAINS ?st ! j))"
      if "fst (getARecord w j) = Some snapshot" "content snapshot \<noteq> publicIp" for snapshot
      using that updateARecord_requests[of j "rid snapshot" publicIp "DOMAINS st ! j" ?st w "content snapshot"]
      by (simp add: reconcile_domain_cases)
    ultimately show ?thesis using sub by blast
  qed
  from none logged completes split no_patch later show ?thesis by blast
qed

theorem fetch_failure_confined_witness:
  "\<not> isRunning two_domains \<and> (0::nat) < length (DOMAINS two_domains)
   \<and> fst (getPublicIp fail_then_stale) = Some ''5.6.7.8''
   \<and> fst (getARecord_attempt fail_then_stale 0 1) = Inl (HttpError 500)
   \<and> fst (getARecord_attempt fail_then_stale 0 2) = Inl (HttpError 500)
   \<and> fst (getARecord_attempt fail_then_stale 0 3) = Inl (HttpError 500)
   \<and> fst (getARecord fail_then_stale 0) = None
   \<and> fst (snd (checkAndUpdate fail_then_stale two_domains)) = None
   \<and> filter (is_patch_for 0) (snd (snd (checkAndUpdate fail_then_stale two_domains))) = []
   \<and> GetRecord 1 \<in> set (snd (snd (checkAndUpdate fail_then_stale two_domains)))
   \<and> PatchRecord 1 ''rec'' ''5.6.7.8'' (JNum 120) (JBool True)
        \<in> set (snd (snd (checkAndUpdate fail_then_stale two_domains)))"
proof -
  have a: "\<not> isRunning two_domains" and b: "0 < length (DOMAINS two_domains)"
    and len: "1 < length (DOMAINS two_domains)"
    and dom: "DOMAINS two_domains ! Suc 0 = dom_b"
    by (simp_all add: two_domains_def initial_globals_def)
  have c: "fst (getPublicIp fail_then_stale) = Some ''5.6.7.8''"
    by (simp add: getPublicIp_def fail_then_stale_def world_of_def)
  have d: "''5.6.7.8'' \<noteq> []" by simp
  have f: "fst (getARecord_attempt fail_then_stale 0 a) = Inl (HttpError 500)" for a
    by (simp add: getARecord_attempt_def fail_then_stale_def world_of_def)
  then have fails: "\<forall>a. 1 \<le> a \<and> a \<le> 3 \<longrightarrow>
      fst (getARecord_attempt fail_then_stale 0 a) = Inl ((\<lambda>a. HttpError 500) a)" by simp
  have "dns_get fail_then_stale 1 1 =
      Response True 200 (Some \<lparr>success = True, result = Some [\<lparr>content = ''1.2.3.4'', rid = ''rec''\<rparr>]\<rparr>)"
    by (simp add: fail_then_stale_def world_of_def found_def)
  then have g: "fst (getARecord fail_then_stale 1) = Some \<lparr>content = ''1.2.3.4'', rid = ''rec''\<rparr>"
    by (simp add: getARecord_found)
  note confined = fetch_failure_confined [OF a c d b fails]
  note later = confined [THEN conjunct2, THEN conjunct2, THEN conjunct2, THEN conjunct2,
      THEN conjunct2, rule_format, of 1]
  from len have get1: "GetRecord 1 \<in> set (snd (snd (checkAndUpdate fail_then_stale two_domains)))"
    using later by simp
  have "PatchRecord 1 (rid \<lparr>content = ''1.2.3.4'', rid = ''rec''\<rparr>) ''5.6.7.8''
          (ttl (DOMAINS two_domains ! 1)) (proxied (DOMAINS two_domains ! 1))
        \<in> set (snd (snd (checkAndUpdate fail_then_stale two_domains)))"
    using later len g by simp
  then have patch1: "PatchRecord 1 ''rec'' ''5.6.7.8'' (JNum 120) (JBool True)
        \<in> set (snd (snd (checkAndUpdate fail_then_stale two_domains)))"
    by (simp add: dom dom_b_def)
  from confined get1 patch1 a b c f show ?thesis
    by (simp add: filter_empty_conv)
qed

text \<open>
  C9. A response with an HTTP-success status whose body has \<^verbatim>\<open>success: false\<close> makes the
  attempt return \<^verbatim>\<open>null\<close> with the "no A record" log line, exactly as a body with
  \<^verbatim>\<open>success: true\<close> and an empty list does: nothing is thrown, the retry loop ends at that
  attempt with no wait and no further attempt, and \<^verbatim>\<open>getARecord\<close> gives its caller the
  same result and trace in both cases.
\<close>

theorem success_false_is_no_record:
  assumes "dns_get w i a = Response True status (Some body)" and "\<not> success body"
    and "dns_get w' i a = Response True status' (Some body')"
    and "success body'" and "result body' = Some []"
  shows "getARecord_attempt w i a = (Inr None, [GetRecord i, Log Error (NoARecordFound i)])
    \<and> getARecord_attempt w' i a = getARecord_attempt w i a
    \<and> (1 \<le> a \<and> a \<le> 3 \<longrightarrow>
         retry_loop (getARecord_attempt w i) (FetchingRecord i) 3 1000 a =
           (Value None, [Attempt (FetchingRecord i) a, GetRecord i, Log Error (NoARecordFound i)]))
    \<and> (a = 1 \<longrightarrow>
         getARecord w i =
           (None, [Attempt (FetchingRecord i) 1, GetRecord i, Log Error (NoARecordFound i)])
         \<and> getARecord w' i = getARecord w i)"
proof -
  have one: "getARecord_attempt w i a = (Inr None, [GetRecord i, Log Error (NoARecordFound i)])"
    using assms(1,2) by (simp add: getARecord_attempt_def)
  have two: "getARecord_attempt w' i a = (Inr None, [GetRecord i, Log Error (NoARecordFound i)])"
    using assms(3,4,5) by (simp add: getARecord_attempt_def)
  have loop: "retry_loop (getARecord_attempt v i) (FetchingRecord i) 3 1000 a =
      (Value None, [Attempt (FetchingRecord i) a, GetRecord i, Log Error (NoARecordFound i)])"
    if "a \<le> 3" "getARecord_attempt v i a = (Inr None, [GetRecord i, Log Error (NoARecordFound i)])"
    for v
    using that by (rule retry_loop_success)
  have get: "getARecord v i =
      (None, [Attempt (FetchingRecord i) 1, GetRecord i, Log Error (NoARecordFound i)])"
    if "a = 1" "getARecord_attempt v i a = (Inr None, [GetRecord i, Log Error (NoARecordFound i)])"
    for v
    using that loop[of v] by (simp add: getARecord_def retryCloudflareAPI_def)
  from one two loop[OF _ one] get[OF _ one] get[OF _ two] show ?thesis by simp
qed

theorem success_false_is_no_record_witness:
  "dns_get not_successful 0 1 = Response True 200 (Some \<lparr>success = False, result = None\<rparr>)
   \<and> dns_get no_records 0 1 = Response True 200 (Some \<lparr>success = True, result = Some []\<rparr>)
   \<and> getARecord not_successful 0 =
       (None, [Attempt (FetchingRecord 0) 1, GetRecord 0, Log Error (NoARecordFound 0)])
   \<and> getARecord no_records 0 = getARecord not_successful 0"
proof -
  have a: "dns_get not_successful 0 1 = Response True 200 (Some \<lparr>success = False, result = None\<rparr>)"
    by (simp add: not_successful_def world_of_def)
  have b: "dns_get no_records 0 1 = Response True 200 (Some \<lparr>success = True, result = Some []\<rparr>)"
    by (simp add: no_records_def world_of_def)
  from success_false_is_no_record [OF a _ b] a b show ?thesis by simp
qed

text \<open>
  C7, as amended. When the bot token or the chat id is missing, every call of the notifier
  returns \<^verbatim>\<open>false\<close>, makes no request, and logs the warning: one warning at each call.
\<close>

theorem notifier_without_credentials:
  "\<not> truthy (TELEGRAM_BOT_TOKEN st) \<or> \<not> truthy (TELEGRAM_CHAT_ID st) \<Longrightarrow>
   sendTelegramMessage st w i = (False, [Log Warn TelegramSkipped])"
  by (auto simp: sendTelegramMessage_def)

theorem notifier_without_credentials_witness:
  "\<not> truthy (TELEGRAM_BOT_TOKEN two_domains)
   \<and> sendTelegramMessage two_domains fail_then_stale 1 = (False, [Log Warn TelegramSkipped])"
proof -
  have a: "\<not> truthy (TELEGRAM_BOT_TOKEN two_domains)"
    by (simp add: two_domains_def initial_globals_def)
  then have "\<not> truthy (TELEGRAM_BOT_TOKEN two_domains) \<or> \<not> truthy (TELEGRAM_CHAT_ID two_domains)" ..
  from notifier_without_credentials [OF this] a show ?thesis by simp
qed

lemma updateARecord_first_success:
  "dns_patch w i 1 = Response True status (Some body) \<Longrightarrow> success body \<Longrightarrow>
   updateARecord st w i d recordId newIp oldIp =
     [Attempt (UpdatingRecord i) 1, PatchRecord i recordId newIp (ttl d) (proxied d),
      Log Info (RecordUpdated i newIp)] @ snd (sendTelegramMessage st w i)"
  by (simp add: updateARecord_def updateARecord_attempt_def
        retryCloudflareAPI_first_success
          [where v = True and evs = "[PatchRecord i recordId newIp (ttl d) (proxied d)]"])

lemma all_stale_trace:
  "snd (snd (checkAndUpdate all_stale two_domains)) =
     [GetPublicIp,
      Attempt (FetchingRecord 0) 1, GetRecord 0, Log Info (RecordDiffers 0 ''1.2.3.4'' ''5.6.7.8''),
      Attempt (UpdatingRecord 0) 1, PatchRecord 0 ''rec'' ''5.6.7.8'' (JNum 60) (JBool False),
      Log Info (RecordUpdated 0 ''5.6.7.8''), Log Warn TelegramSkipped,
      Attempt (FetchingRecord 1) 1, GetRecord 1, Log Info (RecordDiffers 1 ''1.2.3.4'' ''5.6.7.8''),
      Attempt (UpdatingRecord 1) 1, PatchRecord 1 ''rec'' ''5.6.7.8'' (JNum 120) (JBool True),
      Log Info (RecordUpdated 1 ''5.6.7.8''), Log Warn TelegramSkipped]"
proof -
  have run: "\<not> isRunning two_domains" by (simp add: two_domains_def initial_globals_def)
  have get: "getARecord all_stale i =
      (Some \<lparr>content = ''1.2.3.4'', rid = ''rec''\<rparr>, [Attempt (FetchingRecord i) 1, GetRecord i])" for i
    by (rule getARecord_found[where status = 200 and rs = "[]"])
       (simp add: all_stale_def world_of_def found_def)
  have upd: "updateARecord st all_stale i d recordId newIp oldIp =
     [Attempt (UpdatingRecord i) 1, PatchRecord i recordId newIp (ttl d) (proxied d),
      Log Info (RecordUpdated i newIp)] @ snd (sendTelegramMessage st all_stale i)" for st i d recordId newIp oldIp
    by (rule updateARecord_first_success[where status = 200 and body = "\<lparr>success = True, result = None\<rparr>"])
       (simp_all add: all_stale_def world_of_def)
  have ip: "getPublicIp all_stale = (Some ''5.6.7.8'', [GetPublicIp])"
    by (simp add: getPublicIp_def all_stale_def world_of_def)
  have doms: "DOMAINS two_domains = [dom_a, dom_b]"
    and creds: "\<not> truthy (TELEGRAM_BOT_TOKEN two_domains)"
    by (simp_all add: two_domains_def initial_globals_def)
  show ?thesis
    unfolding checkAndUpdate_trace[OF run]
    by (simp add: try_block_def ip doms creds reconcile_domain_def get upd
          sendTelegramMessage_def dom_a_def dom_b_def)
qed

text \<open>
  C7 as stated fails: in one cycle that updates two records without Telegram credentials,
  the notifier is called twice, posts nothing, and the warning is logged twice.
\<close>

theorem warning_once_per_call_counterexample:
  "\<not> truthy (TELEGRAM_BOT_TOKEN two_domains)
   \<and> count_list (snd (snd (checkAndUpdate all_stale two_domains))) (PostTelegram 0) = 0
   \<and> count_list (snd (snd (checkAndUpdate all_stale two_domains))) (PostTelegram 1) = 0
   \<and> count_list (snd (snd (checkAndUpdate all_stale two_domains))) (Log Warn TelegramSkipped) = 2"
  by (simp add: all_stale_trace) (simp add: two_domains_def initial_globals_def)

text \<open>
  C10. An invocation that finds \<^verbatim>\<open>isRunning\<close> false leaves it false, whatever the \<^verbatim>\<open>try\<close>
  block does: when the block throws, the error propagates and the flag is reset; when it
  returns, the flag is reset; when no public IP is resolved, the early return resets it. The
  next invocation gets past the guard.
\<close>

theorem checkAndUpdate_resets_flag:
  "\<not> isRunning st \<Longrightarrow>
     \<not> isRunning (fst (checkAndUpdate_with block st))
   \<and> (block (st\<lparr>isRunning := True\<rparr>) = (Some error, evs) \<longrightarrow>
        checkAndUpdate_with block st = (st\<lparr>isRunning := False\<rparr>, Some error, evs))
   \<and> (block (st\<lparr>isRunning := True\<rparr>) = (None, evs) \<longrightarrow>
        checkAndUpdate_with block st = (st\<lparr>isRunning := False\<rparr>, None, evs))
   \<and> (fst (getPublicIp w) = None \<longrightarrow>
        checkAndUpdate w st =
          (st\<lparr>isRunning := False\<rparr>, None, snd (getPublicIp w) @ [Log Error NoPublicIp]))
   \<and> \<not> isRunning (fst (checkAndUpdate w st))
   \<and> checkAndUpdate_enter (fst (checkAndUpdate w st)) \<noteq> None"
proof -
  assume run: "\<not> isRunning st"
  have any: "checkAndUpdate_with block st =
      (st\<lparr>isRunning := False\<rparr>, block (st\<lparr>isRunning := True\<rparr>))" for block
    using run
    by (cases "block (st\<lparr>isRunning := True\<rparr>)")
       (simp add: checkAndUpdate_with_def checkAndUpdate_enter_def checkAndUpdate_leave_def)
  have early: "fst (getPublicIp w) = None \<longrightarrow>
      checkAndUpdate w st =
        (st\<lparr>isRunning := False\<rparr>, None, snd (getPublicIp w) @ [Log Error NoPublicIp])"
    by (simp add: checkAndUpdate_def any try_block_cases)
  have after: "\<not> isRunning (fst (checkAndUpdate w st))"
    by (simp add: checkAndUpdate_def any)
  then have again: "checkAndUpdate_enter (fst (checkAndUpdate w st)) \<noteq> None"
    by (simp add: checkAndUpdate_enter_def)
  from any[of block] early after again show ?thesis by simp
qed

theorem checkAndUpdate_resets_flag_witness:
  "\<not> isRunning two_domains
   \<and> checkAndUpdate_with throwing_block two_domains =
       (two_domains\<lparr>isRunning := False\<rparr>, Some TypeError, [GetPublicIp])
   \<and> \<not> isRunning (fst (checkAndUpdate_with throwing_block two_domains))
   \<and> \<not> isRunning (fst (checkAndUpdate all_stale two_domains))"
proof -
  have a: "\<not> isRunning two_domains" by (simp add: two_domains_def initial_globals_def)
  have b: "throwing_block (two_domains\<lparr>isRunning := True\<rparr>) = (Some TypeError, [GetPublicIp])"
    by (simp add: throwing_block_def)
  from checkAndUpdate_resets_flag [OF a, of throwing_block TypeError "[GetPublicIp]" all_stale] a b
  show ?thesis by simp
qed

lemma interleave_step_invariant:
  "inside = (if isRunning st then 1 else 0) \<Longrightarrow>
   interleave_step (st, inside, dropped) ev = (st1, inside1, dropped1) \<Longrightarrow>
   inside1 = (if isRunning st1 then 1 else 0)"
  by (cases ev; cases "isRunning st")
     (auto simp: checkAndUpdate_enter_def checkAndUpdate_leave_def)

lemma interleave_invariant:
  "inside = (if isRunning st then 1 else 0) \<Longrightarrow>
   foldl interleave_step (st, inside, dropped) schedule = (st', inside', dropped') \<Longrightarrow>
   inside' = (if isRunning st' then 1 else 0)"
proof (induction schedule arbitrary: st inside dropped)
  case Nil
  then show ?case by auto
next
  case (Cons ev schedule)
  obtain st1 inside1 dropped1 where step: "interleave_step (st, inside, dropped) ev = (st1, inside1, dropped1)"
    by (cases "interleave_step (st, inside, dropped) ev")
  have "inside1 = (if isRunning st1 then 1 else 0)"
    using Cons.prems(1) step by (rule interleave_step_invariant)
  moreover have "foldl interleave_step (st1, inside1, dropped1) schedule = (st', inside', dropped')"
    using Cons.prems(2) step by simp
  ultimately show ?case by (rule Cons.IH)
qed

text \<open>
  C1. An invocation that finds \<^verbatim>\<open>isRunning\<close> set only logs the warning: it leaves the
  globals as they are, makes no request and sets no timer, so the tick is dropped. And
  however invocations and completions interleave, starting with no cycle in progress, at
  most one invocation is inside the \<^verbatim>\<open>try\<close> block, exactly when \<^verbatim>\<open>isRunning\<close> is set.
\<close>

theorem one_cycle_at_a_time:
  "(isRunning st \<longrightarrow>
      checkAndUpdate w st = (st, None, [Log Warn CycleAlreadyRunning])
      \<and> interleave_step (st, inside, dropped) Invoke = (st, inside, Suc dropped))
   \<and> (\<not> isRunning st0 \<longrightarrow>
        fst (snd (interleave st0 schedule)) \<le> 1
        \<and> (isRunning (fst (interleave st0 schedule)) \<longleftrightarrow> fst (snd (interleave st0 schedule)) = 1))"
proof (intro conjI impI)
  assume "isRunning st"
  then show "checkAndUpdate w st = (st, None, [Log Warn CycleAlreadyRunning])"
    by (simp add: checkAndUpdate_def checkAndUpdate_with_def checkAndUpdate_enter_def)
next
  assume "isRunning st"
  then show "interleave_step (st, inside, dropped) Invoke = (st, inside, Suc dropped)"
    by (simp add: checkAndUpdate_enter_def)
next
  assume idle: "\<not> isRunning st0"
  obtain st' inside' dropped' where run: "interleave st0 schedule = (st', inside', dropped')"
    by (cases "interleave st0 schedule")
  then have "foldl interleave_step (st0, 0, 0) schedule = (st', inside', dropped')"
    by (simp add: interleave_def)
  with idle have inv: "inside' = (if isRunning st' then 1 else 0)"
    by (intro interleave_invariant[of 0 st0 0 schedule st' inside' dropped']) simp_all
  from inv run show "fst (snd (interleave st0 schedule)) \<le> 1" by simp
  from inv run show "isRunning (fst (interleave st0 schedule)) \<longleftrightarrow> fst (snd (interleave st0 schedule)) = 1"
    by simp
qed

theorem one_cycle_at_a_time_witness:
  "isRunning busy \<and> \<not> isRunning two_domains
   \<and> checkAndUpdate all_stale busy = (busy, None, [Log Warn CycleAlreadyRunning])
   \<and> interleave two_domains [Invoke, Invoke, Settle, Invoke, Invoke] = (busy, 1, 2)
   \<and> fst (snd (interleave two_domains [Invoke, Invoke, Settle, Invoke, Invoke])) \<le> 1"
proof -
  have a: "isRunning busy" and b: "\<not> isRunning two_domains"
    by (simp_all add: busy_def two_domains_def initial_globals_def)
  have c: "interleave two_domains [Invoke, Invoke, Settle, Invoke, Invoke] = (busy, 1, 2)"
    by (simp add: interleave_def checkAndUpdate_enter_def checkAndUpdate_leave_def busy_def
          two_domains_def initial_globals_def)
  from one_cycle_at_a_time [of busy all_stale 0 0 two_domains "[Invoke, Invoke, Settle, Invoke, Invoke]"]
    a b c show ?thesis by simp
qed

section \<open>Loading and validating the configuration\<close>

lemma keep_entry_Some:
  "keep_entry d = Some keep \<Longrightarrow> keep = complete_entry d \<and> get_prop d ''name'' \<noteq> None"
  by (cases d) (auto simp: keep_entry_def complete_entry_def js_prop_def split: if_splits)

lemma filter_entries_Some:
  "filter_entries ds = Some kept \<Longrightarrow> kept = filter complete_entry ds"
proof (induction ds arbitrary: kept)
  case Nil
  then show ?case by simp
next
  case (Cons d ds)
  from Cons.prems obtain keep rest where k: "keep_entry d = Some keep"
    and r: "filter_entries ds = Some rest" and kept: "kept = (if keep then d # rest else rest)"
    by (auto simp: bind_eq_Some_conv)
  from Cons.IH[OF r] keep_entry_Some[OF k] kept show ?case by simp
qed

lemma make_domain_Some:
  "make_domain defaultApiToken defaultTtl defaultProxied d = Some target \<Longrightarrow>
   target = \<lparr>name = js_prop d ''name'', zoneId = js_prop d ''zoneId'',
             apiToken = js_or (js_prop d ''apiToken'') defaultApiToken,
             ttl = (if js_prop d ''ttl'' \<noteq> JUndefined then js_prop d ''ttl'' else defaultTtl),
             proxied = (if js_prop d ''proxied'' \<noteq> JUndefined then js_prop d ''proxied'' else defaultProxied)\<rparr>"
  by (auto simp: make_domain_def js_prop_def bind_eq_Some_conv)

lemma map_entries_Some:
  "map_entries defaultApiToken defaultTtl defaultProxied ds = Some targets \<Longrightarrow>
   targets = map (\<lambda>d. \<lparr>name = js_prop d ''name'', zoneId = js_prop d ''zoneId'',
             apiToken = js_or (js_prop d ''apiToken'') defaultApiToken,
             ttl = (if js_prop d ''ttl'' \<noteq> JUndefined then js_prop d ''ttl'' else defaultTtl),
             proxied = (if js_prop d ''proxied'' \<noteq> JUndefined then js_prop d ''proxied'' else defaultProxied)\<rparr>) ds"
proof (induction ds arbitrary: targets)
  case Nil
  then show ?case by simp
next
  case (Cons d ds)
  from Cons.prems obtain x xs where x: "make_domain defaultApiToken defaultTtl defaultProxied d = Some x"
    and xs: "map_entries defaultApiToken defaultTtl defaultProxied ds = Some xs"
    and t: "targets = x # xs"
    by (auto simp: bind_eq_Some_conv)
  from Cons.IH[OF xs] make_domain_Some[OF x] t show ?case by simp
qed

lemma load_parsed_domains:
  assumes "load_parsed config = Some st"
    and "get_prop config ''domains'' = Some (JArr entries)"
    and "get_prop config ''defaults'' = Some config_defaults"
  shows "DOMAINS st =
     map (\<lambda>d. \<lparr>name = js_prop d ''name'', zoneId = js_prop d ''zoneId'',
               apiToken = js_or (js_prop d ''apiToken'') (js_prop (js_or config_defaults (JObj [])) ''apiToken''),
               ttl = (if js_prop d ''ttl'' \<noteq> JUndefined then js_prop d ''ttl''
                      else js_or (js_prop (js_or config_defaults (JObj [])) ''ttl'') (JNum 60)),
               proxied = (if js_prop d ''proxied'' \<noteq> JUndefined then js_prop d ''proxied''
                          else js_or (js_prop (js_or config_defaults (JObj [])) ''proxied'') (JBool False))\<rparr>)
         (filter complete_entry entries)"
proof -
  let ?defaults = "js_or config_defaults (JObj [])"
  from assms obtain defaultApiToken defaultTtl defaults_proxied kept targets where
    tok: "get_prop ?defaults ''apiToken'' = Some defaultApiToken"
    and dttl: "defaultTtl_of ?defaults = Some defaultTtl"
    and prox: "get_prop ?defaults ''proxied'' = Some defaults_proxied"
    and kept: "filter_entries entries = Some kept"
    and targets: "map_entries defaultApiToken defaultTtl (js_or defaults_proxied (JBool False)) kept = Some targets"
    and st: "DOMAINS st = targets"
    by (auto simp: load_parsed_def bind_eq_Some_conv Let_def initial_globals_def)
  from dttl have "defaultTtl = js_or (js_prop ?defaults ''ttl'') (JNum 60)"
    by (auto simp: defaultTtl_of_def js_prop_def bind_eq_Some_conv)
  moreover from tok have "defaultApiToken = js_prop ?defaults ''apiToken''" by (simp add: js_prop_def)
  moreover from prox have "defaults_proxied = js_prop ?defaults ''proxied''" by (simp add: js_prop_def)
  ultimately show ?thesis
    using map_entries_Some[OF targets] filter_entries_Some[OF kept] st by simp
qed

lemma defaultTtl_truthy: "truthy (js_or t (JNum 60))"
  by (simp add: js_or_def)

lemma load_ttl_zero_config: "load_parsed ttl_zero_config = Some ttl_zero_globals"
  by (simp add: load_parsed_def ttl_zero_config_def ttl_zero_globals_def keep_entry_def
        make_domain_def defaultTtl_of_def js_or_def initial_globals_def Let_def)

text \<open>
  C8, as amended. For the domains loaded from a configuration, in order: the \<^verbatim>\<open>ttl\<close> of a
  loaded domain is the entry's own \<^verbatim>\<open>ttl\<close> whenever the entry has one (any value but
  \<^verbatim>\<open>undefined\<close>, 0 included, stored as it is), and otherwise the inherited default, which
  is \<^verbatim>\<open>defaults.ttl\<close> when that is truthy and 60 otherwise, hence never 0.
\<close>

theorem loaded_ttl:
  assumes "load_parsed config = Some st"
    and "get_prop config ''domains'' = Some (JArr entries)"
    and "get_prop config ''defaults'' = Some config_defaults"
  shows "map ttl (DOMAINS st) =
           map (\<lambda>d. if js_prop d ''ttl'' \<noteq> JUndefined then js_prop d ''ttl''
                     else js_or (js_prop (js_or config_defaults (JObj [])) ''ttl'') (JNum 60))
               (filter complete_entry entries)
         \<and> truthy (js_or (js_prop (js_or config_defaults (JObj [])) ''ttl'') (JNum 60))"
  by (simp add: load_parsed_domains[OF assms] defaultTtl_truthy comp_def)

theorem loaded_ttl_witness:
  "load_parsed ttl_zero_config = Some ttl_zero_globals
   \<and> map ttl (DOMAINS ttl_zero_globals) = [JNum 0, JNum 300]"
proof -
  have a: "get_prop ttl_zero_config ''domains'' =
      Some (JArr [JObj [(''name'', JStr ''a.example''), (''zoneId'', JStr ''zone-a''), (''ttl'', JNum 0)],
                  JObj [(''name'', JStr ''b.example''), (''zoneId'', JStr ''zone-b'')]])"
    and b: "get_prop ttl_zero_config ''defaults'' =
      Some (JObj [(''apiToken'', JStr ''token''), (''ttl'', JNum 300)])"
    by (simp_all add: ttl_zero_config_def)
  from loaded_ttl [OF load_ttl_zero_config a b] load_ttl_zero_config show ?thesis
    by (simp add: complete_entry_def js_prop_def js_or_def)
qed

text \<open>
  C8 as stated fails: an entry with \<^verbatim>\<open>"ttl": 0\<close> is loaded and accepted by the validation
  with a \<^verbatim>\<open>ttl\<close> of 0, which is not a positive integer.
\<close>

theorem ttl_zero_counterexample:
  "load_and_validate (Parsed ttl_zero_config) = Continue ttl_zero_globals
   \<and> map ttl (DOMAINS ttl_zero_globals) = [JNum 0, JNum 300]
   \<and> \<not> positive_integer (JNum 0)"
  by (simp add: load_and_validate_def loadConfig_def load_ttl_zero_config)
     (simp add: validateConfig_def ttl_zero_globals_def domain_errors_def js_whitespace_def
        initial_globals_def)

lemma domain_errors_incomplete:
  "incomplete_target d \<Longrightarrow> domain_errors index d = Some pushed \<Longrightarrow> pushed \<noteq> []"
  by (auto simp: incomplete_target_def lacks_credential_def domain_errors_def Let_def
      split: if_splits option.splits)

lemma forEach_errors_incomplete:
  "\<exists>d \<in> set ds. incomplete_target d \<Longrightarrow> forEach_errors index ds = Some pushed \<Longrightarrow> pushed \<noteq> []"
proof (induction ds arbitrary: index pushed)
  case Nil
  then show ?case by simp
next
  case (Cons d ds)
  from Cons.prems(2) obtain es rest where es: "domain_errors index d = Some es"
    and rest: "forEach_errors (Suc index) ds = Some rest" and pushed: "pushed = es @ rest"
    by (auto simp: bind_eq_Some_conv)
  show ?case
  proof (cases "incomplete_target d")
    case True
    from domain_errors_incomplete[OF True es] pushed show ?thesis by simp
  next
    case False
    with Cons.prems(1) have "\<exists>d \<in> set ds. incomplete_target d" by simp
    from Cons.IH[OF this rest] pushed show ?thesis by simp
  qed
qed

lemma validateConfig_fatal:
  "DOMAINS st = [] \<or> (\<exists>d \<in> set (DOMAINS st). incomplete_target d) \<Longrightarrow>
   exit_status (validateConfig st) = Some 1"
proof (cases "DOMAINS st = []")
  case True
  then show ?thesis by (simp add: validateConfig_def)
next
  case False
  assume "DOMAINS st = [] \<or> (\<exists>d \<in> set (DOMAINS st). incomplete_target d)"
  with False have bad: "\<exists>d \<in> set (DOMAINS st). incomplete_target d" by simp
  show ?thesis
  proof (cases "forEach_errors 0 (DOMAINS st)")
    case None
    then show ?thesis by (simp add: validateConfig_def)
  next
    case (Some pushed)
    from forEach_errors_incomplete[OF bad Some] Some show ?thesis
      by (simp add: validateConfig_def)
  qed
qed

lemma loadConfig_exit: "loadConfig file = Exit n \<Longrightarrow> n = 1"
  by (auto simp: loadConfig_def split: config_file.splits option.splits)

lemma loadConfig_not_uncaught: "loadConfig file \<noteq> UncaughtTypeError"
  by (auto simp: loadConfig_def split: config_file.splits option.splits)

text \<open>
  C4, as amended. The script exits with status 1 before any cycle whenever the
  configuration cannot be loaded, or the loaded list of domains is empty, or a loaded
  domain misses its name, its zone identifier or a credential (its own or the inherited
  default). The loaded domains are the entries that have both a name and a zone
  identifier, in order, each with its own credential or else the default one: the other
  entries are dropped when the file is loaded. So a file is rejected when no entry has
  both a name and a zone identifier, or an entry that has both has no credential.
\<close>

theorem validation_fatal:
  "(loadConfig file = Exit n \<longrightarrow> exit_status (load_and_validate file) = Some 1)
   \<and> (loadConfig file = Continue st
        \<and> (DOMAINS st = [] \<or> (\<exists>d \<in> set (DOMAINS st). incomplete_target d))
      \<longrightarrow> exit_status (load_and_validate file) = Some 1)
   \<and> (load_parsed config = Some st
        \<and> get_prop config ''domains'' = Some (JArr entries)
        \<and> get_prop config ''defaults'' = Some config_defaults
      \<longrightarrow> map name (DOMAINS st) = map (\<lambda>d. js_prop d ''name'') (filter complete_entry entries)
          \<and> map zoneId (DOMAINS st) = map (\<lambda>d. js_prop d ''zoneId'') (filter complete_entry entries)
          \<and> map apiToken (DOMAINS st) =
                map (\<lambda>d. js_or (js_prop d ''apiToken'')
                                 (js_prop (js_or config_defaults (JObj [])) ''apiToken''))
                    (filter complete_entry entries))
   \<and> (load_parsed config = Some st
        \<and> get_prop config ''domains'' = Some (JArr entries)
        \<and> get_prop config ''defaults'' = Some config_defaults
        \<and> (filter complete_entry entries = []
             \<or> (\<exists>d \<in> set entries. complete_entry d
                    \<and> lacks_credential
                          (js_or (js_prop d ''apiToken'')
                                 (js_prop (js_or config_defaults (JObj [])) ''apiToken''))))
      \<longrightarrow> exit_status (load_and_validate (Parsed config)) = Some 1)"
proof -
  have exits: "exit_status (load_and_validate file) = Some 1" if "loadConfig file = Exit n"
  proof -
    from that have "n = 1" by (rule loadConfig_exit)
    with that show ?thesis by (simp add: load_and_validate_def)
  qed
  have rejected: "exit_status (load_and_validate f) = Some 1"
    if "loadConfig f = Continue st"
      and "DOMAINS st = [] \<or> (\<exists>d \<in> set (DOMAINS st). incomplete_target d)" for f
  proof -
    from that(2) have "exit_status (validateConfig st) = Some 1" by (rule validateConfig_fatal)
    with that(1) show ?thesis
      by (cases "validateConfig st") (simp_all add: load_and_validate_def)
  qed
  let ?target = "\<lambda>d. \<lparr>name = js_prop d ''name'', zoneId = js_prop d ''zoneId'',
               apiToken = js_or (js_prop d ''apiToken'') (js_prop (js_or config_defaults (JObj [])) ''apiToken''),
               ttl = (if js_prop d ''ttl'' \<noteq> JUndefined then js_prop d ''ttl''
                      else js_or (js_prop (js_or config_defaults (JObj [])) ''ttl'') (JNum 60)),
               proxied = (if js_prop d ''proxied'' \<noteq> JUndefined then js_prop d ''proxied''
                          else js_or (js_prop (js_or config_defaults (JObj [])) ''proxied'') (JBool False))\<rparr>"
  have loaded: "DOMAINS st = map ?target (filter complete_entry entries)"
    if "load_parsed config = Some st" "get_prop config ''domains'' = Some (JArr entries)"
      "get_prop config ''defaults'' = Some config_defaults"
    using that by (rule load_parsed_domains)
  have fields: "map name (DOMAINS st) = map (\<lambda>d. js_prop d ''name'') (filter complete_entry entries)
          \<and> map zoneId (DOMAINS st) = map (\<lambda>d. js_prop d ''zoneId'') (filter complete_entry entries)
          \<and> map apiToken (DOMAINS st) =
                map (\<lambda>d. js_or (js_prop d ''apiToken'')
                                 (js_prop (js_or config_defaults (JObj [])) ''apiToken''))
                    (filter complete_entry entries)"
    if "load_parsed config = Some st" "get_prop config ''domains'' = Some (JArr entries)"
      "get_prop config ''defaults'' = Some config_defaults"
    by (simp add: loaded[OF that] comp_def)
  have entry_level: "exit_status (load_and_validate (Parsed config)) = Some 1"
    if l: "load_parsed config = Some st" "get_prop config ''domains'' = Some (JArr entries)"
      "get_prop config ''defaults'' = Some config_defaults"
      and bad: "filter complete_entry entries = []
             \<or> (\<exists>d \<in> set entries. complete_entry d
                    \<and> lacks_credential
                          (js_or (js_prop d ''apiToken'')
                                 (js_prop (js_or config_defaults (JObj [])) ''apiToken'')))"
  proof -
    from l(1) have cont: "loadConfig (Parsed config) = Continue st" by (simp add: loadConfig_def)
    have "DOMAINS st = [] \<or> (\<exists>t \<in> set (DOMAINS st). incomplete_target t)"
    proof (cases "filter complete_entry entries = []")
      case True
      then show ?thesis by (simp add: loaded[OF l])
    next
      case False
      with bad obtain d where d: "d \<in> set entries" "complete_entry d"
          "lacks_credential (js_or (js_prop d ''apiToken'')
                                  (js_prop (js_or config_defaults (JObj [])) ''apiToken''))"
        by blast
      then have "?target d \<in> set (DOMAINS st)" by (simp add: loaded[OF l])
      moreover from d(3) have "incomplete_target (?target d)" by (simp add: incomplete_target_def)
      ultimately show ?thesis by blast
    qed
    with cont show ?thesis by (rule rejected)
  qed
  from exits rejected[of "file"] fields entry_level show ?thesis by blast
qed

lemma load_nameless_entry_config: "load_parsed nameless_entry_config = Some nameless_entry_globals"
  by (simp add: load_parsed_def nameless_entry_config_def nameless_entry_globals_def keep_entry_def
        make_domain_def defaultTtl_of_def js_or_def initial_globals_def Let_def)

lemma load_no_token_config: "load_parsed no_token_config = Some no_token_globals"
  by (simp add: load_parsed_def no_token_config_def no_token_globals_def keep_entry_def
        make_domain_def defaultTtl_of_def js_or_def initial_globals_def Let_def)

text \<open>
  C4 as stated fails: a configuration with one complete entry and one entry without a
  name is accepted, the script goes on with the complete entry alone.
\<close>

theorem nameless_entry_counterexample:
  "get_prop nameless_entry_config ''domains'' =
     Some (JArr [JObj [(''name'', JStr ''a.example''), (''zoneId'', JStr ''zone-a'')],
                 JObj [(''zoneId'', JStr ''zone-b'')]])
   \<and> get_prop (JObj [(''zoneId'', JStr ''zone-b'')]) ''name'' = Some JUndefined
   \<and> load_and_validate (Parsed nameless_entry_config) = Continue nameless_entry_globals
   \<and> exit_status (load_and_validate (Parsed nameless_entry_config)) = None
   \<and> map name (DOMAINS nameless_entry_globals) = [JStr ''a.example'']"
proof -
  have "validateConfig nameless_entry_globals = Continue ()"
    by (simp add: validateConfig_def nameless_entry_globals_def domain_errors_def js_whitespace_def
          initial_globals_def)
  then have "load_and_validate (Parsed nameless_entry_config) = Continue nameless_entry_globals"
    by (simp add: load_and_validate_def loadConfig_def load_nameless_entry_config)
  then show ?thesis
    by (simp add: nameless_entry_config_def nameless_entry_globals_def)
qed

theorem validation_fatal_witness:
  "loadConfig (Parsed no_token_config) = Continue no_token_globals
   \<and> incomplete_target (hd (DOMAINS no_token_globals))
   \<and> exit_status (load_and_validate (Parsed no_token_config)) = Some 1
   \<and> loadConfig NoFile = Exit 1
   \<and> exit_status (load_and_validate NoFile) = Some 1
   \<and> map name (DOMAINS nameless_entry_globals) = [JStr ''a.example'']
   \<and> complete_entry (JObj [(''name'', JStr ''a.example''), (''zoneId'', JStr ''zone-a'')])
   \<and> lacks_credential (js_or JUndefined JUndefined)"
proof -
  have a: "loadConfig (Parsed no_token_config) = Continue no_token_globals"
    by (simp add: loadConfig_def load_no_token_config)
  have b: "incomplete_target (hd (DOMAINS no_token_globals))"
    by (simp add: incomplete_target_def lacks_credential_def no_token_globals_def)
  then have c: "DOMAINS no_token_globals = [] \<or> (\<exists>d \<in> set (DOMAINS no_token_globals). incomplete_target d)"
    by (simp add: no_token_globals_def)
  have d: "loadConfig NoFile = Exit 1" by (simp add: loadConfig_def)
  have e: "get_prop nameless_entry_config ''domains'' =
     Some (JArr [JObj [(''name'', JStr ''a.example''), (''zoneId'', JStr ''zone-a'')],
                 JObj [(''zoneId'', JStr ''zone-b'')]])"
    and f: "get_prop nameless_entry_config ''defaults'' = Some (JObj [(''apiToken'', JStr ''token'')])"
    by (simp_all add: nameless_entry_config_def)
  have j: "get_prop no_token_config ''domains'' =
     Some (JArr [JObj [(''name'', JStr ''a.example''), (''zoneId'', JStr ''zone-a'')]])"
    and k: "get_prop no_token_config ''defaults'' = Some JUndefined"
    by (simp_all add: no_token_config_def)
  have l: "complete_entry (JObj [(''name'', JStr ''a.example''), (''zoneId'', JStr ''zone-a'')])"
    by (simp add: complete_entry_def js_prop_def)
  have m: "lacks_credential (js_or JUndefined JUndefined)"
    by (simp add: lacks_credential_def js_or_def)
  have n: "js_or (js_prop (JObj [(''name'', JStr ''a.example''), (''zoneId'', JStr ''zone-a'')]) ''apiToken'')
             (js_prop (js_or JUndefined (JObj [])) ''apiToken'') = js_or JUndefined JUndefined"
    by (simp add: js_prop_def js_or_def)
  note t1 = validation_fatal [of "Parsed no_token_config" 1 no_token_globals, THEN conjunct2, THEN conjunct1]
  note t2 = validation_fatal [of NoFile 1, THEN conjunct1]
  note t3 = validation_fatal [of _ _ nameless_entry_globals nameless_entry_config, THEN conjunct2,
      THEN conjunct2, THEN conjunct1]
  note t4 = validation_fatal [of _ _ no_token_globals no_token_config
      "[JObj [(''name'', JStr ''a.example''), (''zoneId'', JStr ''zone-a'')]]" JUndefined,
      THEN conjunct2, THEN conjunct2, THEN conjunct2]
  from t1 a c have g: "exit_status (load_and_validate (Parsed no_token_config)) = Some 1" by blast
  from t4 load_no_token_config j k l m n
  have g': "exit_status (load_and_validate (Parsed no_token_config)) = Some 1" by simp
  from t2 d have h: "exit_status (load_and_validate NoFile) = Some 1" by blast
  from t3 load_nameless_entry_config e f
  have i: "map name (DOMAINS nameless_entry_globals) = [JStr ''a.example'']"
    by (simp add: complete_entry_def js_prop_def)
  from a b g g' d h i l m show ?thesis by simp
qed

section \<open>Shutdown\<close>

lemma run_timeline_decides:
  "run_timeline running timeline =
     (case find (\<lambda>(t, f). f = ForceExit \<or> f = PollCycle \<and> \<not> running t) timeline of
        None \<Rightarrow> None
      | Some (t, f) \<Rightarrow> Some (t, if f = PollCycle then 0 else 1))"
proof (induction timeline)
  case Nil
  then show ?case by simp
next
  case (Cons x timeline)
  obtain t f where x: "x = (t, f)" by (cases x)
  show ?case using Cons.IH by (cases f) (simp_all add: x)
qed

lemma timeline_ok_later:
  "timeline_ok timers armed spent now timeline \<Longrightarrow> (t, f) \<in> set timeline \<Longrightarrow> now \<le> t"
proof (induction timeline arbitrary: armed spent now)
  case Nil
  then show ?case by simp
next
  case (Cons x timeline)
  obtain s g where x: "x = (s, g)" by (cases x)
  from Cons.prems(1) have s: "now \<le> s"
    and rest: "timeline_ok timers (armed(g := s)) (g # spent) s timeline"
    by (simp_all add: x)
  show ?case
  proof (cases "(t, f) = x")
    case True
    with s x show ?thesis by simp
  next
    case False
    with Cons.prems(2) have "(t, f) \<in> set timeline" by simp
    from Cons.IH[OF rest this] s show ?thesis by simp
  qed
qed

lemma timeline_ok_may_fire:
  "timeline_ok timers armed spent now timeline \<Longrightarrow> (t, f) \<in> set timeline \<Longrightarrow>
   \<exists>armed' spent'. may_fire timers armed' spent' t f"
proof (induction timeline arbitrary: armed spent now)
  case Nil
  then show ?case by simp
next
  case (Cons x timeline)
  obtain s g where x: "x = (s, g)" by (cases x)
  from Cons.prems(1) have here: "may_fire timers armed spent s g"
    and rest: "timeline_ok timers (armed(g := s)) (g # spent) s timeline"
    by (simp_all add: x)
  show ?case
  proof (cases "(t, f) = x")
    case True
    with here x show ?thesis by blast
  next
    case False
    with Cons.prems(2) have "(t, f) \<in> set timeline" by simp
    from Cons.IH[OF rest this] show ?thesis .
  qed
qed

lemma shutdown_may_fire:
  assumes "\<not> isShuttingDown st" and "isRunning st"
  shows "may_fire (snd (gracefulShutdown st)) armed spent t f =
     (case f of
        PollCycle \<Rightarrow> armed PollCycle + 100 \<le> t
      | ForceExit \<Rightarrow> 30000 \<le> t \<and> ForceExit \<notin> set spent
      | RunCheck \<Rightarrow> False)"
  using assms
  by (cases "timer st"; cases f) (auto simp: gracefulShutdown_def Let_def may_fire_def)

lemma shutdown_first_exit:
  "\<not> isShuttingDown st \<Longrightarrow> isRunning st \<Longrightarrow> first_exit (snd (gracefulShutdown st)) = None"
  by (cases "timer st") (simp_all add: gracefulShutdown_def Let_def)

lemma running_until_earlier: "running_until ends t \<Longrightarrow> s \<le> t \<Longrightarrow> running_until ends s"
  by (cases ends) (simp_all add: running_until_def)

lemma find_Some_member: "find P xs = Some x \<Longrightarrow> x \<in> set xs"
  by (induction xs) (auto split: if_splits)

lemma timer_decides:
  "timeline_ok timers armed spent now timeline \<Longrightarrow>
   find (\<lambda>(t, f). f = ForceExit) timeline = Some (T, g) \<Longrightarrow>
   running_until ends T \<Longrightarrow>
   find (\<lambda>(t, f). f = ForceExit \<or> f = PollCycle \<and> \<not> running_until ends t) timeline
     = Some (T, ForceExit)"
proof (induction timeline arbitrary: armed spent now)
  case Nil
  then show ?case by simp
next
  case (Cons x timeline)
  obtain s h where x: "x = (s, h)" by (cases x)
  show ?case
  proof (cases "h = ForceExit")
    case True
    with Cons.prems(2) x show ?thesis by simp
  next
    case False
    with Cons.prems(2) x have later: "find (\<lambda>(t, f). f = ForceExit) timeline = Some (T, g)"
      by simp
    then have "(T, g) \<in> set timeline" by (rule find_Some_member)
    moreover from Cons.prems(1) x
    have rest: "timeline_ok timers (armed(h := s)) (h # spent) s timeline" by simp
    ultimately have "s \<le> T" by (rule timeline_ok_later[rotated])
    with Cons.prems(3) have "running_until ends s" by (rule running_until_earlier)
    with False x Cons.IH[OF rest later Cons.prems(3)] show ?thesis by simp
  qed
qed

lemma poll_spacing:
  assumes "\<not> isShuttingDown st" and "isRunning st"
  shows "timeline_ok (snd (gracefulShutdown st)) armed spent now
           (before @ (s, PollCycle) # (t, PollCycle) # after) \<Longrightarrow> s + 100 \<le> t"
proof (induction before arbitrary: armed spent now)
  case Nil
  then show ?case by (simp add: shutdown_may_fire[OF assms])
next
  case (Cons x before)
  obtain u h where x: "x = (u, h)" by (cases x)
  from Cons.prems x
  have "timeline_ok (snd (gracefulShutdown st)) (armed(h := u)) (h # spent) u
          (before @ (s, PollCycle) # (t, PollCycle) # after)" by simp
  then show ?case by (rule Cons.IH)
qed

lemma shutdown_firings:
  assumes "\<not> isShuttingDown st" and "isRunning st"
    and "shutdown_timeline st timeline" and "(t, f) \<in> set timeline"
  shows "f \<noteq> RunCheck \<and> (f = PollCycle \<longrightarrow> 100 \<le> t) \<and> (f = ForceExit \<longrightarrow> 30000 \<le> t)"
proof -
  from assms(3,4) obtain armed' spent' where
    "may_fire (snd (gracefulShutdown st)) armed' spent' t f"
    unfolding shutdown_timeline_def by (blast dest: timeline_ok_may_fire)
  then show ?thesis by (cases f) (simp_all add: shutdown_may_fire[OF assms(1,2)])
qed

lemma run_timeline_skip:
  "\<forall>(s, f) \<in> set before. f = PollCycle \<and> running s \<Longrightarrow>
   run_timeline running (before @ rest) = run_timeline running rest"
  by (induction before) auto

lemma timer_bounds_exit:
  "timeline_ok timers armed spent now timeline \<Longrightarrow> (T, ForceExit) \<in> set timeline \<Longrightarrow>
   \<exists>t code. run_timeline running timeline = Some (t, code) \<and> t \<le> T"
proof (induction timeline arbitrary: armed spent now)
  case Nil
  then show ?case by simp
next
  case (Cons x timeline)
  obtain s h where x: "x = (s, h)" by (cases x)
  from Cons.prems(1) x
  have rest: "timeline_ok timers (armed(h := s)) (h # spent) s timeline" by simp
  have s: "s \<le> T"
  proof (cases "(T, ForceExit) = x")
    case True
    with x show ?thesis by simp
  next
    case False
    with Cons.prems(2) have "(T, ForceExit) \<in> set timeline" by simp
    with rest show ?thesis by (rule timeline_ok_later)
  qed
  show ?case
  proof (cases "first_exit (run_callback h (running s))")
    case (Some code)
    with x s show ?thesis by simp
  next
    case None
    then have "h \<noteq> ForceExit" by auto
    with Cons.prems(2) x have "(T, ForceExit) \<in> set timeline" by auto
    from Cons.IH[OF rest this] None x show ?thesis by simp
  qed
qed

text \<open>
  C5, as amended. A signal received while shutting down changes nothing. The first signal
  sets \<^verbatim>\<open>isShuttingDown\<close>, after which \<^verbatim>\<open>scheduleNextCheck\<close> sets no timer, and cancels the
  pending timer. With no cycle in progress the process exits at once with status 0. With
  a cycle in progress the handler sets a poll of period 100 ms, which exits with status 0
  when it finds \<^verbatim>\<open>isRunning\<close> false, and a timer of 30000 ms, which exits with status 1.
  Whatever the runtime's timeline, the process exits at the first callback that is the
  timer or a poll that runs after the cycle has ended, with status 0 for the poll and 1
  for the timer: so with status 0 at the first poll at or after the end of the cycle when
  no timer ran before it. On a timeline the runtime can produce, a poll runs no sooner
  than 100 ms after the signal and after the poll before it, the timer no sooner than
  30000 ms after the signal; once the timer runs the process has exited; and when the
  cycle is still in progress as the timer runs, the exit is the timer's, with status 1.
\<close>

theorem graceful_shutdown:
  "(isShuttingDown st \<longrightarrow> gracefulShutdown st = (st, []))
   \<and> (\<not> isShuttingDown st \<longrightarrow>
        isShuttingDown (fst (gracefulShutdown st))
        \<and> scheduleNextCheck h (fst (gracefulShutdown st)) = (fst (gracefulShutdown st), [])
        \<and> (\<forall>pending. timer st = Some pending \<longrightarrow>
              ClearTimeout pending \<in> set (snd (gracefulShutdown st))))
   \<and> (\<not> isShuttingDown st \<and> \<not> isRunning st \<longrightarrow> on_signal st ends timeline = Some (0, 0))
   \<and> (\<not> isShuttingDown st \<and> isRunning st \<longrightarrow>
        SetInterval 100 PollCycle \<in> set (snd (gracefulShutdown st))
        \<and> SetTimeout 30000 ForceExit \<in> set (snd (gracefulShutdown st))
        \<and> run_callback PollCycle False = [ClearInterval, ProcessExit 0]
        \<and> run_callback PollCycle True = []
        \<and> run_callback ForceExit running = [ProcessExit 1]
        \<and> on_signal st ends timeline =
            (case find (\<lambda>(t, f). f = ForceExit \<or> f = PollCycle \<and> \<not> running_until ends t) timeline of
               None \<Rightarrow> None
             | Some (t, f) \<Rightarrow> Some (t, if f = PollCycle then 0 else 1))
        \<and> (\<forall>c before t after.
              ends = Some c \<and> timeline = before @ (t, PollCycle) # after \<and> c \<le> t
              \<and> (\<forall>(s, f) \<in> set before. f = PollCycle \<and> s < c)
              \<longrightarrow> on_signal st ends timeline = Some (t, 0))
        \<and> (shutdown_timeline st timeline \<longrightarrow>
              (\<forall>(t, f) \<in> set timeline.
                  f \<noteq> RunCheck \<and> (f = PollCycle \<longrightarrow> 100 \<le> t) \<and> (f = ForceExit \<longrightarrow> 30000 \<le> t))
              \<and> (\<forall>before s t after.
                    timeline = before @ (s, PollCycle) # (t, PollCycle) # after \<longrightarrow> s + 100 \<le> t)
              \<and> (\<forall>T. (T, ForceExit) \<in> set timeline \<longrightarrow>
                    (\<exists>t code. on_signal st ends timeline = Some (t, code) \<and> t \<le> T))
              \<and> (\<forall>T. find (\<lambda>(t, f). f = ForceExit) timeline = Some (T, ForceExit)
                      \<and> running_until ends T
                    \<longrightarrow> on_signal st ends timeline = Some (T, 1) \<and> 30000 \<le> T)))"
proof (intro conjI impI allI)
  assume "isShuttingDown st"
  then show "gracefulShutdown st = (st, [])" by (simp add: gracefulShutdown_def)
next
  assume "\<not> isShuttingDown st"
  then show "isShuttingDown (fst (gracefulShutdown st))"
    by (simp add: gracefulShutdown_def Let_def)
  then show "scheduleNextCheck h (fst (gracefulShutdown st)) = (fst (gracefulShutdown st), [])"
    by (simp add: scheduleNextCheck_def)
next
  fix pending
  assume "\<not> isShuttingDown st" "timer st = Some pending"
  then show "ClearTimeout pending \<in> set (snd (gracefulShutdown st))"
    by (simp add: gracefulShutdown_def Let_def)
next
  assume "\<not> isShuttingDown st \<and> \<not> isRunning st"
  then show "on_signal st ends timeline = Some (0, 0)"
    by (cases "timer st") (simp_all add: on_signal_def gracefulShutdown_def Let_def)
next
  assume "\<not> isShuttingDown st \<and> isRunning st"
  then show "SetInterval 100 PollCycle \<in> set (snd (gracefulShutdown st))"
    and "SetTimeout 30000 ForceExit \<in> set (snd (gracefulShutdown st))"
    by (simp_all add: gracefulShutdown_def Let_def)
next
  show "run_callback PollCycle False = [ClearInterval, ProcessExit 0]" by simp
  show "run_callback PollCycle True = []" by simp
  show "run_callback ForceExit running = [ProcessExit 1]" by simp
next
  assume a: "\<not> isShuttingDown st \<and> isRunning st"
  then have run: "on_signal st e tl = run_timeline (running_until e) tl" for e tl
    using shutdown_first_exit[of st]
    by (cases "gracefulShutdown st") (simp add: on_signal_def)
  show "on_signal st ends timeline =
            (case find (\<lambda>(t, f). f = ForceExit \<or> f = PollCycle \<and> \<not> running_until ends t) timeline of
               None \<Rightarrow> None
             | Some (t, f) \<Rightarrow> Some (t, if f = PollCycle then 0 else 1))"
    unfolding run by (rule run_timeline_decides)
  { fix c before t after
    assume b: "ends = Some c \<and> timeline = before @ (t, PollCycle) # after \<and> c \<le> t
              \<and> (\<forall>(s, f) \<in> set before. f = PollCycle \<and> s < c)"
    then have "\<forall>(s, f) \<in> set before. f = PollCycle \<and> running_until ends s"
      by (auto simp: running_until_def)
    then have "run_timeline (running_until ends) (before @ (t, PollCycle) # after) =
        run_timeline (running_until ends) ((t, PollCycle) # after)"
      by (rule run_timeline_skip)
    with b show "on_signal st ends timeline = Some (t, 0)"
      by (simp add: run running_until_def) }
  { assume ok: "shutdown_timeline st timeline"
    from a have a1: "\<not> isShuttingDown st" and a2: "isRunning st" by simp_all
    show "\<forall>(t, f) \<in> set timeline.
          f \<noteq> RunCheck \<and> (f = PollCycle \<longrightarrow> 100 \<le> t) \<and> (f = ForceExit \<longrightarrow> 30000 \<le> t)"
      using shutdown_firings[OF a1 a2 ok] by blast
    { fix before s t after
      assume "timeline = before @ (s, PollCycle) # (t, PollCycle) # after"
      with ok show "s + 100 \<le> t"
        unfolding shutdown_timeline_def by (auto dest: poll_spacing[OF a1 a2]) }
    { fix T assume "(T, ForceExit) \<in> set timeline"
      with ok show "\<exists>t code. on_signal st ends timeline = Some (t, code) \<and> t \<le> T"
        unfolding run shutdown_timeline_def by (rule timer_bounds_exit) }
    { fix T
      assume f: "find (\<lambda>(t, f). f = ForceExit) timeline = Some (T, ForceExit)
                      \<and> running_until ends T"
      then have f1: "find (\<lambda>(t, f). f = ForceExit) timeline = Some (T, ForceExit)"
        and f2: "running_until ends T" by simp_all
      from ok have ok': "timeline_ok (snd (gracefulShutdown st)) (\<lambda>f. 0) [] 0 timeline"
        by (simp add: shutdown_timeline_def)
      from ok' f1 f2
      have "find (\<lambda>(t, f). f = ForceExit \<or> f = PollCycle \<and> \<not> running_until ends t) timeline
          = Some (T, ForceExit)"
        by (rule timer_decides)
      then show "on_signal st ends timeline = Some (T, 1)"
        by (simp add: run run_timeline_decides)
      from f1 have "(T, ForceExit) \<in> set timeline" by (rule find_Some_member)
      with shutdown_firings[OF a1 a2 ok] show "30000 \<le> T" by blast } }
qed

lemma late_polls_ok:
  assumes "\<not> isShuttingDown st" and "isRunning st"
  shows "armed PollCycle + 100 \<le> 100 * a + 1 \<Longrightarrow> now \<le> 100 * a + 1 \<Longrightarrow> now \<le> 30000 \<Longrightarrow>
         100 * b \<le> 30000 \<Longrightarrow> ForceExit \<notin> set spent \<Longrightarrow>
         timeline_ok (snd (gracefulShutdown st)) armed spent now
           (map (\<lambda>k. (100 * k + 1, PollCycle)) [a..<b] @ [(30000, ForceExit)])"
proof (induction "b - a" arbitrary: a armed spent now)
  case 0
  then have "[a..<b] = []" by simp
  with 0 show ?case by (simp add: shutdown_may_fire[OF assms])
next
  case (Suc n)
  then have lt: "a < b" and n: "n = b - Suc a" by simp_all
  have "timeline_ok (snd (gracefulShutdown st)) (armed(PollCycle := 100 * a + 1)) (PollCycle # spent)
          (100 * a + 1) (map (\<lambda>k. (100 * k + 1, PollCycle)) [Suc a..<b] @ [(30000, ForceExit)])"
    using Suc.prems lt by (intro Suc.hyps(1)[OF n]) simp_all
  with Suc.prems lt show ?case
    by (simp add: upt_conv_Cons shutdown_may_fire[OF assms])
qed

text \<open>
  C5 as stated fails: with polls that run 1 ms late, a cycle that ends 29990 ms after the
  signal, within the 30 seconds, ends after the last poll before the timer (29901 ms),
  and the process is force-exited with status 1 at 30000 ms.
\<close>

theorem late_poll_counterexample:
  "\<not> isShuttingDown in_cycle \<and> isRunning in_cycle
   \<and> shutdown_timeline in_cycle late_polls
   \<and> running_until (Some 29990) 29901 \<and> \<not> running_until (Some 29990) 29990
   \<and> last (butlast late_polls) = (29901, PollCycle)
   \<and> on_signal in_cycle (Some 29990) late_polls = Some (30000, 1)"
proof -
  have a: "\<not> isShuttingDown in_cycle" and b: "isRunning in_cycle"
    by (simp_all add: in_cycle_def initial_globals_def)
  have ok: "shutdown_timeline in_cycle late_polls"
    unfolding shutdown_timeline_def late_polls_def
    by (rule late_polls_ok[OF a b]) simp_all
  have polls: "\<forall>(s, f) \<in> set (map (\<lambda>k. (100 * k + 1, PollCycle)) [1..<300]).
      f = PollCycle \<and> running_until (Some 29990) s"
    by (auto simp: running_until_def)
  have "run_timeline (running_until (Some 29990)) late_polls =
      run_timeline (running_until (Some 29990)) [(30000, ForceExit)]"
    unfolding late_polls_def using polls by (rule run_timeline_skip)
  then have exit: "on_signal in_cycle (Some 29990) late_polls = Some (30000, 1)"
    using shutdown_first_exit[OF a b]
    by (cases "gracefulShutdown in_cycle") (simp add: on_signal_def)
  have "[Suc 0..<Suc 299] = [Suc 0..<299] @ [299]" by (rule upt_Suc_append) simp
  then have "[1..<300] = [1..<299] @ [299]" by simp
  then have lastp: "last (butlast late_polls) = (29901, PollCycle)"
    by (simp add: late_polls_def butlast_append)
  from a b ok exit lastp show ?thesis by (simp add: running_until_def)
qed

theorem graceful_shutdown_witness:
  "\<not> isShuttingDown scheduled \<and> \<not> isRunning scheduled
   \<and> on_signal scheduled None [] = Some (0, 0)
   \<and> ClearTimeout 7 \<in> set (snd (gracefulShutdown scheduled))
   \<and> \<not> isShuttingDown in_cycle \<and> isRunning in_cycle
   \<and> shutdown_timeline in_cycle three_polls
   \<and> on_signal in_cycle (Some 250) three_polls = Some (310, 0)
   \<and> find (\<lambda>(t, f). f = ForceExit) three_polls = Some (30002, ForceExit)
   \<and> running_until (Some 40000) 30002
   \<and> on_signal in_cycle (Some 40000) three_polls = Some (30002, 1)
   \<and> on_signal in_cycle None three_polls = Some (30002, 1)
   \<and> isShuttingDown (fst (gracefulShutdown in_cycle))
   \<and> gracefulShutdown (fst (gracefulShutdown in_cycle)) = (fst (gracefulShutdown in_cycle), [])"
proof -
  have a: "\<not> isShuttingDown scheduled" "\<not> isRunning scheduled" "timer scheduled = Some 7"
    by (simp_all add: scheduled_def initial_globals_def)
  have b: "\<not> isShuttingDown in_cycle" "isRunning in_cycle"
    by (simp_all add: in_cycle_def initial_globals_def)
  have ok: "shutdown_timeline in_cycle three_polls"
    by (simp add: shutdown_timeline_def three_polls_def shutdown_may_fire[OF b])
  have f: "find (\<lambda>(t, f). f = ForceExit) three_polls = Some (30002, ForceExit)"
    by (simp add: three_polls_def)
  have r: "running_until (Some 40000) 30002" "running_until None 30002"
    by (simp_all add: running_until_def)
  note idle = graceful_shutdown [of scheduled 0 None "[]" True]
  note early = graceful_shutdown [of in_cycle 0 "Some 250" three_polls True, THEN conjunct2,
      THEN conjunct2, THEN conjunct2, rule_format]
  note late = graceful_shutdown [of in_cycle 0 "Some 40000" three_polls True, THEN conjunct2,
      THEN conjunct2, THEN conjunct2, rule_format]
  note never = graceful_shutdown [of in_cycle 0 None three_polls True, THEN conjunct2,
      THEN conjunct2, THEN conjunct2, rule_format]
  note first = graceful_shutdown [of in_cycle 0 None "[]" True]
  note again = graceful_shutdown [of "fst (gracefulShutdown in_cycle)" 0 None "[]" True]
  from idle a have 1: "on_signal scheduled None [] = Some (0, 0)"
    and 2: "ClearTimeout 7 \<in> set (snd (gracefulShutdown scheduled))" by simp_all
  from early b have 3: "on_signal in_cycle (Some 250) three_polls = Some (310, 0)"
    by (simp add: three_polls_def running_until_def)
  note late_timer = late [THEN conjunct2, THEN conjunct2, THEN conjunct2, THEN conjunct2,
      THEN conjunct2, THEN conjunct2, THEN conjunct2, rule_format]
  note never_timer = never [THEN conjunct2, THEN conjunct2, THEN conjunct2, THEN conjunct2,
      THEN conjunct2, THEN conjunct2, THEN conjunct2, rule_format]
  from b have b': "\<not> isShuttingDown in_cycle \<and> isRunning in_cycle" by simp
  from f r(1) have fr1: "find (\<lambda>(t, f). f = ForceExit) three_polls = Some (30002, ForceExit)
      \<and> running_until (Some 40000) 30002" by simp
  from f r(2) have fr2: "find (\<lambda>(t, f). f = ForceExit) three_polls = Some (30002, ForceExit)
      \<and> running_until None 30002" by simp
  have 4: "on_signal in_cycle (Some 40000) three_polls = Some (30002, 1)"
    using late_timer[OF b' ok, THEN conjunct2, THEN conjunct2, THEN conjunct2, rule_format, OF fr1]
    by simp
  have 5: "on_signal in_cycle None three_polls = Some (30002, 1)"
    using never_timer[OF b' ok, THEN conjunct2, THEN conjunct2, THEN conjunct2, rule_format, OF fr2]
    by simp
  from first b have 6: "isShuttingDown (fst (gracefulShutdown in_cycle))" by simp
  from again 6 have 7: "gracefulShutdown (fst (gracefulShutdown in_cycle)) = (fst (gracefulShutdown in_cycle), [])"
    by simp
  from a b ok f r 1 2 3 4 5 6 7 show ?thesis by simp
qed

end
